theory Spec2Isabelle
  imports Main
begin

section \<open>go-func-logger: the syntax tree, positions and errors\<close>

text \<open>
  The program (a single file, \<^verbatim>\<open>main.go\<close>) parses a Go file with \<^verbatim>\<open>go/parser\<close>,
  finds for every top-level function declaration one entry position and its exit
  positions, renders a print statement for each, and writes the file again with those
  statements inserted before the lines they belong to.

  Go's \<^verbatim>\<open>int\<close> is modelled as \<open>int\<close>: the only arithmetic is on line numbers, column
  numbers and a counter of generated lines, all bounded by the size of the input file,
  so no 64-bit wrap-around can occur. Strings are byte lists.
\<close>

subsection \<open>Positions (go/token)\<close>

text \<open>
  \<^verbatim>\<open>token.Pos\<close> is an integer; \<^verbatim>\<open>token.NoPos\<close> is 0 and \<^verbatim>\<open>IsValid\<close> is
  \<^verbatim>\<open>p != NoPos\<close>. A \<^verbatim>\<open>token.Position\<close> has a file name, an offset, a line and a column;
  the program reads only the last two. The file set is the table that resolves a
  \<^verbatim>\<open>Pos\<close>; \<^verbatim>\<open>FileSet.Position\<close> returns the zero position for \<^verbatim>\<open>NoPos\<close>.
\<close>

type_synonym pos = int

definition NoPos :: pos where
  "NoPos = 0"

definition IsValid :: "pos \<Rightarrow> bool" where
  "IsValid p = (p \<noteq> NoPos)"

record position =
  Line :: int
  Column :: int

type_synonym FileSet = "pos \<Rightarrow> position"

definition Position :: "FileSet \<Rightarrow> pos \<Rightarrow> position" where
  "Position fset p = (if p = NoPos then \<lparr>Line = 0, Column = 0\<rparr> else fset p)"

text \<open>
  The table behind a file set with one file, as \<^verbatim>\<open>go/token\<close> keeps it: the base of
  the file (a \<^verbatim>\<open>Pos\<close> is the base plus an offset), its size, the offsets at which its
  lines start, and the entries that the scanner adds for line directives
  (\<^verbatim>\<open>//line file:line\<close> or \<^verbatim>\<open>//line file:line:col\<close>): the offset from which the
  entry holds (the start of the line after the directive), the line number given and
  the column given, 0 when the directive gives none. \<^verbatim>\<open>searchInts\<close> is the index of
  the last element not above \<open>x\<close> in a sorted slice, or -1. \<^verbatim>\<open>File.unpack\<close> computes
  line and column of an offset; \<^verbatim>\<open>FileSet.Position\<close> asks for the adjusted position,
  the one that follows the line directives, and there a directive without a column
  leaves the column unknown: 0.
\<close>

record lineInfo =
  InfoOffset :: int
  InfoLine :: int
  InfoColumn :: int

record TokenFile =
  FileBase :: int
  FileSize :: int
  FileLines :: "int list"
  FileInfos :: "lineInfo list"

definition searchInts :: "int list \<Rightarrow> int \<Rightarrow> int" where
  "searchInts a x = int (length (filter (\<lambda>v. v \<le> x) a)) - 1"

definition searchLineInfos :: "lineInfo list \<Rightarrow> int \<Rightarrow> int" where
  "searchLineInfos a x = int (length (filter (\<lambda>v. InfoOffset v \<le> x) a)) - 1"

definition unpack :: "TokenFile \<Rightarrow> int \<Rightarrow> int \<times> int" where
  "unpack f offset =
     (let i = searchInts (FileLines f) offset;
          line = (if i \<ge> 0 then i + 1 else 0);
          column = (if i \<ge> 0 then offset - FileLines f ! nat i + 1 else 0)
      in if length (FileInfos f) > 0 then
           (let k = searchLineInfos (FileInfos f) offset in
            if k \<ge> 0 then
              (let alt = FileInfos f ! nat k;
                   j = searchInts (FileLines f) (InfoOffset alt)
               in if j \<ge> 0 then
                    (let d = line - (j + 1) in
                     (InfoLine alt + d,
                      if InfoColumn alt = 0 then 0
                      else if d = 0 then InfoColumn alt + (offset - InfoOffset alt)
                      else column))
                  else (line, column))
            else (line, column))
         else (line, column))"

definition FileSetOf :: "TokenFile \<Rightarrow> FileSet" where
  "FileSetOf f p =
     (if FileBase f \<le> p \<and> p \<le> FileBase f + FileSize f
      then case unpack f (p - FileBase f) of (line, column) \<Rightarrow> \<lparr>Line = line, Column = column\<rparr>
      else \<lparr>Line = 0, Column = 0\<rparr>)"

subsection \<open>The syntax tree (go/ast)\<close>

text \<open>
  Of a statement or expression the program uses three things: its position
  (\<^verbatim>\<open>n.Pos()\<close>), whether it is an \<^verbatim>\<open>*ast.ReturnStmt\<close>, and the nodes below it that
  \<^verbatim>\<open>ast.Inspect\<close> visits. A node is therefore a return statement or any other node,
  with its position and its children in the order \<^verbatim>\<open>ast.Walk\<close> visits them. The
  children of a return statement are its result expressions, which may hold function
  literals with return statements of their own.
\<close>

datatype node =
    ReturnStmt pos "node list"
  | OtherNode pos "node list"

fun Pos :: "node \<Rightarrow> pos" where
  "Pos (ReturnStmt p cs) = p"
| "Pos (OtherNode p cs) = p"

fun isReturnStmt :: "node \<Rightarrow> bool" where
  "isReturnStmt (ReturnStmt p cs) = True"
| "isReturnStmt (OtherNode p cs) = False"

text \<open>
  \<^verbatim>\<open>ast.Field\<close>: the names a field binds and its type expression. An
  \<^verbatim>\<open>*ast.FieldList\<close> is the list of its fields, or absent (a nil pointer).
\<close>

record Field =
  Names :: "string list"
  Type :: node

record FuncType =
  TypeParams :: "Field list option"
  Params :: "Field list option"
  Results :: "Field list option"

record BlockStmt =
  Lbrace :: pos
  List :: "node list"
  Rbrace :: pos

record FuncDecl =
  Recv :: "Field list option"
  Name :: "string option"
  FType :: FuncType
  Body :: "BlockStmt option"

datatype Decl =
    Func FuncDecl
  | OtherDecl

record File =
  Decls :: "Decl list"

subsection \<open>Errors\<close>

text \<open>
  \<^verbatim>\<open>log.Fatal\<close> prints its message and ends the process with status 1; a run-time
  panic ends it as well. Both are results of the model.
\<close>

datatype error =
    Fatal string
  | Panic string

section \<open>The function extractor\<close>

record FuncInfo =
  Name :: string
  Params :: "string list"
  Returns :: "string list"
  EntryLogPos :: position
  ExitLogPos :: "position list"

definition NewFuncInfo :: "FileSet \<Rightarrow> FuncInfo" where
  "NewFuncInfo fset =
     \<lparr>Name = [], Params = [], Returns = [],
      EntryLogPos = Position fset NoPos, ExitLogPos = []\<rparr>"

text \<open>
  \<^verbatim>\<open>HasField(s, name)\<close> dereferences a pointer and asks whether the struct has a
  field of that name. Every call names a field that its struct type has, so the
  answer is whether the pointer is non-nil: always for the fields of a list and for
  \<^verbatim>\<open>fn.Type\<close>, and for a field list exactly when it is present.
\<close>

definition IsFuncBodyValid :: "BlockStmt option \<Rightarrow> bool" where
  "IsFuncBodyValid body =
     (case body of
        None \<Rightarrow> False
      | Some b \<Rightarrow>
          if Lbrace b = NoPos \<or> \<not> IsValid (Lbrace b) then False
          else if Rbrace b = NoPos \<or> \<not> IsValid (Rbrace b) then False
          else True)"

definition ExtractNameFromField :: "Field \<Rightarrow> error + string" where
  "ExtractNameFromField field =
     (if length (Names field) = 0 then Inr []
      else if length (Names field) > 1 then Inl (Fatal ''unknown parameter type'')
      else Inr (hd (Names field)))"

fun GetParamNames_loop :: "Field list \<Rightarrow> string list \<Rightarrow> error + string list" where
  "GetParamNames_loop [] res = Inr res"
| "GetParamNames_loop (field # flds) res =
     (case ExtractNameFromField field of
        Inl e \<Rightarrow> Inl e
      | Inr n \<Rightarrow> GetParamNames_loop flds (res @ [n]))"

definition GetParamNames :: "Field list option \<Rightarrow> error + string list" where
  "GetParamNames params =
     (case params of
        None \<Rightarrow> Inr []
      | Some flds \<Rightarrow>
          if length flds = 0 then Inr [] else GetParamNames_loop flds [])"

text \<open>
  \<^verbatim>\<open>ast.Inspect(fn, f)\<close> with an \<open>f\<close> that always returns true calls \<open>f\<close> on every
  node below the declaration, depth first, a node before its children. Below a
  \<^verbatim>\<open>FuncDecl\<close>, \<^verbatim>\<open>ast.Walk\<close> visits the receiver list, the name, the function type (type
  parameters, parameters, results) and the body, in this order; below a field its
  names and its type. Only statement and expression nodes can be return statements,
  so the walk is given as the list of those.
\<close>

fun Inspect :: "node \<Rightarrow> node list" where
  "Inspect (ReturnStmt p cs) = ReturnStmt p cs # concat (map Inspect cs)"
| "Inspect (OtherNode p cs) = OtherNode p cs # concat (map Inspect cs)"

definition Inspect_FieldList :: "Field list option \<Rightarrow> node list" where
  "Inspect_FieldList fl =
     (case fl of None \<Rightarrow> [] | Some flds \<Rightarrow> concat (map (\<lambda>f. Inspect (Type f)) flds))"

definition Inspect_Body :: "BlockStmt option \<Rightarrow> node list" where
  "Inspect_Body body =
     (case body of None \<Rightarrow> [] | Some b \<Rightarrow> concat (map Inspect (List b)))"

definition Inspect_FuncDecl :: "FuncDecl \<Rightarrow> node list" where
  "Inspect_FuncDecl fn =
     Inspect_FieldList (Recv fn) @
     Inspect_FieldList (TypeParams (FType fn)) @
     Inspect_FieldList (FuncType.Params (FType fn)) @
     Inspect_FieldList (Results (FType fn)) @
     Inspect_Body (Body fn)"

definition FindReturnStmts :: "FuncDecl \<Rightarrow> FileSet \<Rightarrow> position list" where
  "FindReturnStmts fn fset =
     map (\<lambda>ret. Position fset (Pos ret)) (filter isReturnStmt (Inspect_FuncDecl fn))"

text \<open>
  \<^verbatim>\<open>ExtractFuncInfo\<close> returns the record and whether to keep it; reading the parameter
  or result names can end the process. \<open>exit_positions\<close> is its last part, from
  \<^verbatim>\<open>lastRet := false\<close> on: the position of the closing brace, with the column of the
  last statement when there is one, is appended unless the last statement is a return
  statement and some return statement was found.
\<close>

definition exit_positions :: "BlockStmt \<Rightarrow> FileSet \<Rightarrow> position list \<Rightarrow> position list" where
  "exit_positions b fset rets =
     (let exitLogPos0 = Position fset (Rbrace b);
          exitLogPos =
            (if length (List b) \<noteq> 0
             then exitLogPos0\<lparr>Column := Column (Position fset (Pos (last (List b))))\<rparr>
             else exitLogPos0);
          lastRet = (length (List b) \<noteq> 0 \<and> isReturnStmt (last (List b)))
      in if length rets = 0 \<or> \<not> lastRet then rets @ [exitLogPos] else rets)"

definition ExtractFuncInfo :: "FuncDecl \<Rightarrow> FileSet \<Rightarrow> error + (FuncInfo \<times> bool)" where
  "ExtractFuncInfo fn fset =
     (let result = NewFuncInfo fset in
      if \<not> IsFuncBodyValid (Body fn) then Inr (result, False)
      else
        let b = the (Body fn);
            result = (case FuncDecl.Name fn of
                        None \<Rightarrow> result
                      | Some n \<Rightarrow> result\<lparr>Name := n\<rparr>)
        in case GetParamNames (FuncType.Params (FType fn)) of
             Inl e \<Rightarrow> Inl e
           | Inr ps \<Rightarrow>
               (case GetParamNames (Results (FType fn)) of
                  Inl e \<Rightarrow> Inl e
                | Inr rs \<Rightarrow>
                    let result = result\<lparr>Params := ps, Returns := rs\<rparr>;
                        result =
                          (if length (List b) = 0
                           then result\<lparr>EntryLogPos := Position fset (Lbrace b)\<rparr>
                           else result\<lparr>EntryLogPos := Position fset (Pos (hd (List b)))\<rparr>);
                        result = result\<lparr>ExitLogPos :=
                                   exit_positions b fset (FindReturnStmts fn fset)\<rparr>
                    in Inr (result, True)))"

fun GetAllFuncInfo_loop :: "Decl list \<Rightarrow> FileSet \<Rightarrow> FuncInfo list \<Rightarrow> error + FuncInfo list" where
  "GetAllFuncInfo_loop [] fset fnInfo = Inr fnInfo"
| "GetAllFuncInfo_loop (OtherDecl # decls) fset fnInfo = GetAllFuncInfo_loop decls fset fnInfo"
| "GetAllFuncInfo_loop (Func fn # decls) fset fnInfo =
     (case ExtractFuncInfo fn fset of
        Inl e \<Rightarrow> Inl e
      | Inr (info, ok) \<Rightarrow>
          if \<not> ok then GetAllFuncInfo_loop decls fset fnInfo
          else GetAllFuncInfo_loop decls fset (fnInfo @ [info]))"

definition GetAllFuncInfo :: "File \<Rightarrow> FileSet \<Rightarrow> error + FuncInfo list" where
  "GetAllFuncInfo root fset = GetAllFuncInfo_loop (Decls root) fset []"

section \<open>The trace composer\<close>

record LogInfo =
  Log :: string
  Col :: int

text \<open>
  \<^verbatim>\<open>strings.HasSuffix\<close> and \<^verbatim>\<open>strings.TrimSuffix\<close>, and the decimal rendering that
  \<^verbatim>\<open>fmt.Sprintf\<close> gives an integer under \<^verbatim>\<open>%d\<close>.
\<close>

definition HasSuffix :: "string \<Rightarrow> string \<Rightarrow> bool" where
  "HasSuffix s suffix =
     (length s \<ge> length suffix \<and> drop (length s - length suffix) s = suffix)"

definition TrimSuffix :: "string \<Rightarrow> string \<Rightarrow> string" where
  "TrimSuffix s suffix =
     (if HasSuffix s suffix then take (length s - length suffix) s else s)"

fun FormatNat :: "nat \<Rightarrow> string" where
  "FormatNat n =
     (if n < 10 then [''0123456789'' ! n]
      else FormatNat (n div 10) @ [''0123456789'' ! (n mod 10)])"

declare FormatNat.simps [simp del]

definition FormatInt :: "int \<Rightarrow> string" where
  "FormatInt i = (if i < 0 then CHR ''-'' # FormatNat (nat (- i)) else FormatNat (nat i))"

fun GetParamLog_loop :: "string list \<Rightarrow> string \<times> string \<times> int \<Rightarrow> string \<times> string \<times> int" where
  "GetParamLog_loop [] st = st"
| "GetParamLog_loop (param # params) (paramLog, paramValLog, count) =
     (if param = [] then GetParamLog_loop params (paramLog, paramValLog, count)
      else GetParamLog_loop params
             (paramLog @ param @ '': '' @ ''%+v, '', paramValLog @ param @ '','', count + 1))"

definition GetParamLog :: "string list \<Rightarrow> string \<times> string \<times> int" where
  "GetParamLog params =
     (if params = [] then ([], [], 0)
      else case GetParamLog_loop params ([], [], 0) of
             (paramLog, paramValLog, count) \<Rightarrow>
               (TrimSuffix paramLog '', '', TrimSuffix paramValLog '','', count))"

text \<open>
  The entry statement. In the Go source the format strings are
  \<^verbatim>\<open>"fmt.Printf(\"%s\\n\", %s)"\<close> and \<^verbatim>\<open>"fmt.Println(\"%s\")"\<close>: the generated text
  holds a backslash followed by the letter n, not a line break.
\<close>

definition GetEntryLogInfo :: "FuncInfo \<Rightarrow> LogInfo" where
  \<open>GetEntryLogInfo info =
     (let entryLog = ''Starting func '' @ Name info in
      case GetParamLog (Params info) of
        (paramLog, paramValLog, count) \<Rightarrow>
          if count \<noteq> 0 then
            let entryLog = entryLog @ '' with values: '' @ paramLog in
            \<lparr>Log = ''fmt.Printf("'' @ entryLog @ [CHR 0x5C] @ ''n", '' @ paramValLog @ '')'',
             Col = Column (EntryLogPos info)\<rparr>
          else
            \<lparr>Log = ''fmt.Println("'' @ entryLog @ ''")'',
             Col = Column (EntryLogPos info)\<rparr>)\<close>

text \<open>Indexing a slice out of range panics.\<close>

definition GetExitLogInfo :: "FuncInfo \<Rightarrow> nat \<Rightarrow> int \<Rightarrow> error + LogInfo" where
  \<open>GetExitLogInfo info idx line =
     (if idx < length (ExitLogPos info) then
        Inr \<lparr>Log = ''fmt.Println("Exiting func '' @ Name info @ '' from line '' @
                     FormatInt line @ ''")'',
             Col = Column (ExitLogPos info ! idx)\<rparr>
      else Inl (Panic ''index out of range''))\<close>

text \<open>
  The index of generated lines is a Go map from line numbers to slices; reading a
  missing key gives the nil slice, to which \<^verbatim>\<open>append\<close> adds.
\<close>

type_synonym LineIndex = "int \<rightharpoonup> LogInfo list"

definition lookup :: "LineIndex \<Rightarrow> int \<Rightarrow> LogInfo list" where
  "lookup logs k = (case logs k of None \<Rightarrow> [] | Some infos \<Rightarrow> infos)"

definition append_log :: "LineIndex \<Rightarrow> int \<Rightarrow> LogInfo \<Rightarrow> LineIndex" where
  "append_log logs k info = logs(k \<mapsto> lookup logs k @ [info])"

fun GenerateLogs_exits ::
  "FuncInfo \<Rightarrow> nat \<Rightarrow> position list \<Rightarrow> LineIndex \<times> int \<Rightarrow> error + (LineIndex \<times> int)" where
  "GenerateLogs_exits info idx [] st = Inr st"
| "GenerateLogs_exits info idx (exitLog # rest) (logs, count) =
     (case GetExitLogInfo info idx (Line exitLog + count) of
        Inl e \<Rightarrow> Inl e
      | Inr li \<Rightarrow>
          GenerateLogs_exits info (idx + 1) rest
            (append_log logs (Line exitLog) li, count + 1))"

fun GenerateLogs_loop :: "FuncInfo list \<Rightarrow> LineIndex \<times> int \<Rightarrow> error + (LineIndex \<times> int)" where
  "GenerateLogs_loop [] st = Inr st"
| "GenerateLogs_loop (info # fnInfo) (logs, count) =
     (case GenerateLogs_exits info 0 (ExitLogPos info)
             (append_log logs (Line (EntryLogPos info)) (GetEntryLogInfo info), count + 1) of
        Inl e \<Rightarrow> Inl e
      | Inr st \<Rightarrow> GenerateLogs_loop fnInfo st)"

definition GenerateLogs :: "FuncInfo list \<Rightarrow> error + LineIndex" where
  "GenerateLogs fnInfo =
     (case GenerateLogs_loop fnInfo (Map.empty, 0) of
        Inl e \<Rightarrow> Inl e
      | Inr (logs, count) \<Rightarrow> Inr logs)"

section \<open>The line merger\<close>

text \<open>
  A file is the sequence of its lines, as \<^verbatim>\<open>bufio.Scanner\<close> delivers them (without
  their line ends) and as \<^verbatim>\<open>fmt.Fprintln\<close> writes them, one call for each; the file
  system maps a path to the file there. The scanner gives up on a line of 64 KiB or
  more. \<^verbatim>\<open>strings.Repeat\<close> panics on a negative count.
\<close>

type_synonym FS = "string \<rightharpoonup> string list"

definition ReadFileLines :: "string \<Rightarrow> FS \<Rightarrow> error + string list" where
  "ReadFileLines path fs =
     (case fs path of
        None \<Rightarrow> Inl (Fatal (''open '' @ path @ '': no such file or directory''))
      | Some contents \<Rightarrow>
          if list_ex (\<lambda>l. length l \<ge> 65536) contents
          then Inl (Fatal ''bufio.Scanner: token too long'')
          else Inr contents)"

definition Repeat :: "string \<Rightarrow> int \<Rightarrow> error + string" where
  "Repeat s count =
     (if count < 0 then Inl (Panic ''strings: negative Repeat count'')
      else Inr (concat (replicate (nat count) s)))"

fun WriteLogs_infos :: "LogInfo list \<Rightarrow> string list \<Rightarrow> error + string list" where
  "WriteLogs_infos [] wr = Inr wr"
| "WriteLogs_infos (info # infos) wr =
     (case Repeat [CHR 0x09] (Col info - 1) of
        Inl e \<Rightarrow> Inl e
      | Inr indent \<Rightarrow> WriteLogs_infos infos (wr @ [indent @ Log info]))"

fun WriteLogs_loop :: "nat \<Rightarrow> string list \<Rightarrow> LineIndex \<Rightarrow> string list \<Rightarrow> error + string list" where
  "WriteLogs_loop idx [] logs wr = Inr wr"
| "WriteLogs_loop idx (line # contents) logs wr =
     (case (case logs (int idx + 1) of
              None \<Rightarrow> Inr wr
            | Some infos \<Rightarrow> WriteLogs_infos infos wr) of
        Inl e \<Rightarrow> Inl e
      | Inr wr' \<Rightarrow> WriteLogs_loop (idx + 1) contents logs (wr' @ [line]))"

text \<open>
  \<^verbatim>\<open>os.Create\<close> truncates the destination before the first line is rendered. After a
  panic the buffered writer is not flushed; the model then leaves the destination
  empty (lines that a full buffer had already passed on are not modelled).
\<close>

definition WriteLogsToFile :: "string \<Rightarrow> string list \<Rightarrow> LineIndex \<Rightarrow> FS \<Rightarrow> error option \<times> FS" where
  "WriteLogsToFile path contents logs fs =
     (case WriteLogs_loop 0 contents logs [] of
        Inl e \<Rightarrow> (Some e, fs(path \<mapsto> []))
      | Inr wr \<Rightarrow> (None, fs(path \<mapsto> wr)))"

section \<open>The orchestrator\<close>

text \<open>
  \<^verbatim>\<open>filepath.Base\<close> on a Unix path: the last element, after trailing slashes are
  removed; \<open>.\<close> for the empty path and \<open>/\<close> for a path of slashes only.
\<close>

definition strip_trailing_slashes :: "string \<Rightarrow> string" where
  "strip_trailing_slashes path = rev (dropWhile (\<lambda>c. c = CHR ''/'') (rev path))"

definition last_element :: "string \<Rightarrow> string" where
  "last_element path = rev (takeWhile (\<lambda>c. c \<noteq> CHR ''/'') (rev path))"

definition Base :: "string \<Rightarrow> string" where
  "Base path =
     (if path = [] then ''.''
      else let path = last_element (strip_trailing_slashes path)
           in if path = [] then ''/'' else path)"

text \<open>
  \<^verbatim>\<open>filepath.Clean\<close> on a Unix path, by its documented rules: repeated slashes
  become one, \<open>.\<close> elements go, an inner \<open>..\<close> goes with the element before it, a
  \<open>..\<close> at the start of a rooted path goes, and the empty result is \<open>.\<close>.
  \<^verbatim>\<open>filepath.Dir\<close> cleans the path up to and including its last slash.
  \<^verbatim>\<open>filepath.Ext\<close>, which the program does not call, is the suffix of the last
  element from its last dot on; it serves to state what extension a path has.
\<close>

fun Split :: "string \<Rightarrow> string list" where
  "Split [] = [[]]"
| "Split (c # cs) =
     (if c = CHR ''/'' then [] # Split cs
      else case Split cs of
             [] \<Rightarrow> [[c]]
           | e # es \<Rightarrow> (c # e) # es)"

text \<open>\<^verbatim>\<open>strings.Join\<close>: the elements with the separator between them.\<close>

fun Join :: "string list \<Rightarrow> string \<Rightarrow> string" where
  "Join [] sep = []"
| "Join [e] sep = e"
| "Join (e # es) sep = e @ sep @ Join es sep"

fun Clean_elems :: "bool \<Rightarrow> string list \<Rightarrow> string list \<Rightarrow> string list" where
  "Clean_elems rooted [] out = out"
| "Clean_elems rooted (e # es) out =
     (if e = [] \<or> e = ''.'' then Clean_elems rooted es out
      else if e = ''..'' then
        (if out \<noteq> [] \<and> last out \<noteq> ''..'' then Clean_elems rooted es (butlast out)
         else if rooted then Clean_elems rooted es out
         else Clean_elems rooted es (out @ [''..'']))
      else Clean_elems rooted es (out @ [e]))"

definition Clean :: "string \<Rightarrow> string" where
  "Clean path =
     (if path = [] then ''.''
      else let rooted = (hd path = CHR ''/'');
               out = (if rooted then ''/'' else []) @ Join (Clean_elems rooted (Split path) []) ''/''
           in if out = [] then ''.'' else out)"

definition Dir :: "string \<Rightarrow> string" where
  "Dir path = Clean (rev (dropWhile (\<lambda>c. c \<noteq> CHR ''/'') (rev path)))"

definition Ext :: "string \<Rightarrow> string" where
  "Ext path =
     (let e = last_element path
      in if CHR ''.'' \<in> set e then rev (takeWhile (\<lambda>c. c \<noteq> CHR ''.'') (rev e) @ ''.'') else [])"

definition GetNewPath :: "string \<Rightarrow> string" where
  "GetNewPath path =
     (let name = Base path;
          dir = Dir path;
          newName = ''debug_'' @ name
      in dir @ ''/'' @ newName)"

text \<open>
  The run on a parsed file. What the program prints on standard output is left out.
\<close>

definition AddLogsToFile :: "File \<Rightarrow> FileSet \<Rightarrow> string \<Rightarrow> FS \<Rightarrow> error option \<times> FS" where
  "AddLogsToFile root fset filePath fs =
     (case GetAllFuncInfo root fset of
        Inl e \<Rightarrow> (Some e, fs)
      | Inr allFuncInfo \<Rightarrow>
          (case GenerateLogs allFuncInfo of
             Inl e \<Rightarrow> (Some e, fs)
           | Inr logs \<Rightarrow>
               let newFilePath = GetNewPath filePath in
               (case ReadFileLines filePath fs of
                  Inl e \<Rightarrow> (Some e, fs)
                | Inr contents \<Rightarrow> WriteLogsToFile newFilePath contents logs fs)))"

section \<open>Notions used in the statements\<close>

text \<open>
  The function declarations of a file that have a valid body, in source order.
\<close>

definition valid_funcs :: "Decl list \<Rightarrow> FuncDecl list" where
  "valid_funcs ds =
     concat (map (\<lambda>d. case d of Func fn \<Rightarrow> (if IsFuncBodyValid (Body fn) then [fn] else [])
                            | OtherDecl \<Rightarrow> []) ds)"

text \<open>
  The fields of a list that may be absent; whether a parameter or result field of a
  declaration binds more than one name (as in \<^verbatim>\<open>a, b int\<close>).
\<close>

definition fields_of :: "Field list option \<Rightarrow> Field list" where
  "fields_of fl = (case fl of None \<Rightarrow> [] | Some flds \<Rightarrow> flds)"

definition binds_several :: "FuncDecl \<Rightarrow> bool" where
  "binds_several fn =
     list_ex (\<lambda>f. length (Names f) > 1)
       (fields_of (FuncType.Params (FType fn)) @ fields_of (Results (FType fn)))"

text \<open>
  The return statements of the body of a declaration (nested ones included), and
  those of the whole declaration.
\<close>

definition body_returns :: "FuncDecl \<Rightarrow> node list" where
  "body_returns fn = filter isReturnStmt (Inspect_Body (Body fn))"

definition signature_returns :: "FuncDecl \<Rightarrow> node list" where
  "signature_returns fn =
     filter isReturnStmt
       (Inspect_FieldList (Recv fn) @
        Inspect_FieldList (TypeParams (FType fn)) @
        Inspect_FieldList (FuncType.Params (FType fn)) @
        Inspect_FieldList (Results (FType fn)))"

definition last_is_return :: "BlockStmt \<Rightarrow> bool" where
  "last_is_return b = (List b \<noteq> [] \<and> isReturnStmt (last (List b)))"

text \<open>
  The points at which a trace line is generated, in the order of generation: the
  functions in the order of their records, for each its entry and then its exit
  positions. The line a point belongs to, and the trace line of a point before which
  \<open>k\<close> trace lines have been generated.
\<close>

datatype trace_point =
    EntryPoint FuncInfo
  | ExitPoint FuncInfo position

definition trace_points :: "FuncInfo list \<Rightarrow> trace_point list" where
  "trace_points fnInfo =
     concat (map (\<lambda>info. EntryPoint info # map (ExitPoint info) (ExitLogPos info)) fnInfo)"

fun point_line :: "trace_point \<Rightarrow> int" where
  "point_line (EntryPoint info) = Line (EntryLogPos info)"
| "point_line (ExitPoint info p) = Line p"

definition exit_text :: "string \<Rightarrow> int \<Rightarrow> string" where
  \<open>exit_text name n =
     ''fmt.Println("Exiting func '' @ name @ '' from line '' @ FormatInt n @ ''")''\<close>

fun point_log :: "nat \<Rightarrow> trace_point \<Rightarrow> LogInfo" where
  "point_log k (EntryPoint info) = GetEntryLogInfo info"
| "point_log k (ExitPoint info p) =
     \<lparr>Log = exit_text (Name info) (Line p + int k), Col = Column p\<rparr>"

fun gen_from :: "nat \<Rightarrow> trace_point list \<Rightarrow> (int \<times> LogInfo) list" where
  "gen_from k [] = []"
| "gen_from k (pt # pts) = (point_line pt, point_log k pt) # gen_from (Suc k) pts"

definition add_all :: "(int \<times> LogInfo) list \<Rightarrow> LineIndex \<Rightarrow> LineIndex" where
  "add_all xs logs = fold (\<lambda>(l, li) m. append_log m l li) xs logs"

text \<open>
  The entry statement in the words of the specification, for a given placeholder:
  a formatted print that lists every parameter with a name, in declared order, and
  takes those parameters as arguments; a plain print when no parameter has a name.
\<close>

definition entry_text :: "string \<Rightarrow> string \<Rightarrow> string list \<Rightarrow> string" where
  \<open>entry_text verb name params =
     (let named = filter (\<lambda>p. p \<noteq> []) params in
      if named = [] then ''fmt.Println("Starting func '' @ name @ ''")''
      else ''fmt.Printf("Starting func '' @ name @ '' with values: '' @
           Join (map (\<lambda>p. p @ '': '' @ verb) named) '', '' @ [CHR 0x5C] @ ''n", '' @
           Join named '','' @ '')'')\<close>

text \<open>\<^verbatim>\<open>strings.HasPrefix\<close>; whether a generated line is an entry statement.\<close>

definition HasPrefix :: "string \<Rightarrow> string \<Rightarrow> bool" where
  "HasPrefix s prefix = (take (length prefix) s = prefix)"

definition is_entry_log :: "LogInfo \<Rightarrow> bool" where
  \<open>is_entry_log li =
     (HasPrefix (Log li) ''fmt.Println("Starting func '' \<or>
      HasPrefix (Log li) ''fmt.Printf("Starting func '')\<close>

text \<open>The name a field contributes to the list of parameter names.\<close>

definition field_name :: "Field \<Rightarrow> string" where
  "field_name f = (if Names f = [] then [] else hd (Names f))"

text \<open>
  A trace line as it is written: the tab repeated column minus one times, then the
  statement. The merged file in closed form: for every line of the input, the trace
  lines of its line number and then the line itself. Whether every trace line that
  belongs to a line of the input has a column of at least 1.
\<close>

definition render_log :: "LogInfo \<Rightarrow> string" where
  "render_log li = replicate (nat (Col li - 1)) (CHR 0x09) @ Log li"

definition merged :: "string list \<Rightarrow> LineIndex \<Rightarrow> string list" where
  "merged contents logs =
     concat (map (\<lambda>i. map render_log (lookup logs (int i + 1)) @ [contents ! i])
                 [0..<length contents])"

definition columns_ok :: "string list \<Rightarrow> LineIndex \<Rightarrow> bool" where
  "columns_ok contents logs =
     list_all (\<lambda>i. list_all (\<lambda>li. 1 \<le> Col li) (lookup logs (int i + 1))) [0..<length contents]"

fun merge_from :: "nat \<Rightarrow> string list \<Rightarrow> LineIndex \<Rightarrow> string list" where
  "merge_from idx [] logs = []"
| "merge_from idx (line # contents) logs =
     map render_log (lookup logs (int idx + 1)) @ line # merge_from (Suc idx) contents logs"

fun columns_ok_from :: "nat \<Rightarrow> string list \<Rightarrow> LineIndex \<Rightarrow> bool" where
  "columns_ok_from idx [] logs = True"
| "columns_ok_from idx (line # contents) logs =
     (list_all (\<lambda>li. 1 \<le> Col li) (lookup logs (int idx + 1)) \<and>
      columns_ok_from (Suc idx) contents logs)"

text \<open>
  The text patterns of the generated statements: a line matches when, after its
  leading tabs, it starts as an entry or an exit statement does.
\<close>

definition is_trace_text :: "string \<Rightarrow> bool" where
  \<open>is_trace_text s =
     (HasPrefix s ''fmt.Println("Starting func '' \<or>
      HasPrefix s ''fmt.Printf("Starting func '' \<or>
      HasPrefix s ''fmt.Println("Exiting func '')\<close>

definition is_trace_line :: "string \<Rightarrow> bool" where
  "is_trace_line l = is_trace_text (dropWhile (\<lambda>c. c = CHR 0x09) l)"

text \<open>
  The positions of a processed declaration that the parser and the file set answer
  for: every node has a valid position that resolves to a column of at least 1,
  and so do the two braces of the body.
\<close>

definition brace_positions :: "FuncDecl \<Rightarrow> pos list" where
  "brace_positions fn = (case Body fn of None \<Rightarrow> [] | Some b \<Rightarrow> [Lbrace b, Rbrace b])"

definition positions_ok :: "FileSet \<Rightarrow> FuncDecl \<Rightarrow> bool" where
  "positions_ok fset fn =
     (list_all (\<lambda>n. IsValid (Pos n) \<and> 1 \<le> Column (fset (Pos n))) (Inspect_FuncDecl fn) \<and>
      list_all (\<lambda>p. 1 \<le> Column (fset p)) (brace_positions fn))"

text \<open>The index built from the generation points alone.\<close>

definition generated_index :: "FuncInfo list \<Rightarrow> LineIndex" where
  "generated_index fnInfo = add_all (gen_from 0 (trace_points fnInfo)) Map.empty"

text \<open>
  The shape of a cleaned list of path elements: every element is a name (not empty,
  not \<open>.\<close>, without a slash), and \<open>..\<close> occurs only in a leading run of an unrooted
  path.
\<close>

definition elem_ok :: "string \<Rightarrow> bool" where
  "elem_ok e = (e \<noteq> [] \<and> e \<noteq> ''.'' \<and> CHR ''/'' \<notin> set e)"

definition plain :: "string list \<Rightarrow> bool" where
  "plain es = list_all (\<lambda>e. elem_ok e \<and> e \<noteq> ''..'') es"

fun normal :: "bool \<Rightarrow> string list \<Rightarrow> bool" where
  "normal rooted [] = True"
| "normal rooted (e # es) =
     (if rooted then plain (e # es)
      else if e = ''..'' then normal rooted es
      else plain (e # es))"

section \<open>An example file\<close>

text \<open>
  The examples below are about this file; a tab starts lines 4, 8, 10 and 11, two tabs
  line 9.
  \<^verbatim>\<open>
   1  package main
   2
   3  func Add(a int, b int) int {
   4      return a + b
   5  }
   6
   7  func Check(x int) {
   8      if x == 5 {
   9          return
  10      }
  11      println(x)
  12  }
  13
  14  func Fwd(x, y int)
  15
  16  func Empty() {}
  \<close>
  A position is written as 100 times its line plus its column.
\<close>

definition ex_fset :: FileSet where
  "ex_fset p = \<lparr>Line = p div 100, Column = p mod 100\<rparr>"

definition ex_Add :: FuncDecl where
  "ex_Add =
     \<lparr>Recv = None, Name = Some ''Add'',
      FType = \<lparr>TypeParams = None,
               Params = Some [\<lparr>Names = [''a''], Type = OtherNode 312 []\<rparr>,
                              \<lparr>Names = [''b''], Type = OtherNode 319 []\<rparr>],
               Results = Some [\<lparr>Names = [], Type = OtherNode 324 []\<rparr>]\<rparr>,
      Body = Some \<lparr>Lbrace = 328,
                   List = [ReturnStmt 402 [OtherNode 409 [OtherNode 409 [], OtherNode 413 []]]],
                   Rbrace = 501\<rparr>\<rparr>"

definition ex_Check :: FuncDecl where
  "ex_Check =
     \<lparr>Recv = None, Name = Some ''Check'',
      FType = \<lparr>TypeParams = None,
               Params = Some [\<lparr>Names = [''x''], Type = OtherNode 714 []\<rparr>],
               Results = None\<rparr>,
      Body = Some \<lparr>Lbrace = 719,
                   List = [OtherNode 802 [OtherNode 805 [OtherNode 805 [], OtherNode 810 []],
                                          OtherNode 812 [ReturnStmt 903 []]],
                           OtherNode 1102 [OtherNode 1102 [OtherNode 1102 [], OtherNode 1110 []]]],
                   Rbrace = 1201\<rparr>\<rparr>"

definition ex_Fwd :: FuncDecl where
  "ex_Fwd =
     \<lparr>Recv = None, Name = Some ''Fwd'',
      FType = \<lparr>TypeParams = None,
               Params = Some [\<lparr>Names = [''x'', ''y''], Type = OtherNode 1415 []\<rparr>],
               Results = None\<rparr>,
      Body = None\<rparr>"

definition ex_Empty :: FuncDecl where
  "ex_Empty =
     \<lparr>Recv = None, Name = Some ''Empty'',
      FType = \<lparr>TypeParams = None, Params = Some [], Results = None\<rparr>,
      Body = Some \<lparr>Lbrace = 1614, List = [], Rbrace = 1615\<rparr>\<rparr>"

definition ex_root :: File where
  "ex_root = \<lparr>Decls = [OtherDecl, Func ex_Add, Func ex_Check, Func ex_Fwd, Func ex_Empty]\<rparr>"

definition ex_infos :: "FuncInfo list" where
  "ex_infos =
     [\<lparr>Name = ''Add'', Params = [''a'', ''b''], Returns = [[]],
       EntryLogPos = \<lparr>Line = 4, Column = 2\<rparr>, ExitLogPos = [\<lparr>Line = 4, Column = 2\<rparr>]\<rparr>,
      \<lparr>Name = ''Check'', Params = [''x''], Returns = [],
       EntryLogPos = \<lparr>Line = 8, Column = 2\<rparr>,
       ExitLogPos = [\<lparr>Line = 9, Column = 3\<rparr>, \<lparr>Line = 12, Column = 2\<rparr>]\<rparr>,
      \<lparr>Name = ''Empty'', Params = [], Returns = [],
       EntryLogPos = \<lparr>Line = 16, Column = 14\<rparr>, ExitLogPos = [\<lparr>Line = 16, Column = 15\<rparr>]\<rparr>]"

text \<open>
  A file whose third line is \<^verbatim>\<open>func Pair(x, y int) {}\<close>, and one whose third line is
  \<^verbatim>\<open>func f(a [func() int { return 1 }()]int) {}\<close>: the parser accepts any
  expression as the length of an array type.
\<close>

definition ex_Pair :: FuncDecl where
  "ex_Pair =
     \<lparr>Recv = None, Name = Some ''Pair'',
      FType = \<lparr>TypeParams = None,
               Params = Some [\<lparr>Names = [''x'', ''y''], Type = OtherNode 316 []\<rparr>],
               Results = None\<rparr>,
      Body = Some \<lparr>Lbrace = 321, List = [], Rbrace = 322\<rparr>\<rparr>"

definition ex_root_Pair :: File where
  "ex_root_Pair = \<lparr>Decls = [OtherDecl, Func ex_Pair]\<rparr>"

definition ex_fs_Pair :: FS where
  "ex_fs_Pair = [''pair.go'' \<mapsto> [''package main'', [], ''func Pair(x, y int) {}'']]"

definition ex_Sig :: FuncDecl where
  "ex_Sig =
     \<lparr>Recv = None, Name = Some ''f'',
      FType = \<lparr>TypeParams = None,
               Params = Some
                 [\<lparr>Names = [''a''],
                   Type = OtherNode 310
                            [OtherNode 311
                               [OtherNode 311
                                  [OtherNode 311 [OtherNode 318 []],
                                   OtherNode 322 [ReturnStmt 324 [OtherNode 331 []]]]],
                             OtherNode 337 []]\<rparr>],
               Results = None\<rparr>,
      Body = Some \<lparr>Lbrace = 342, List = [], Rbrace = 343\<rparr>\<rparr>"

text \<open>
  The lines of the example file, the index of its trace lines, and the file that the
  merger writes.
\<close>

definition ex_contents :: "string list" where
  "ex_contents =
     [''package main'',
      [],
      ''func Add(a int, b int) int {'',
      CHR 0x09 # ''return a + b'',
      ''}'',
      [],
      ''func Check(x int) {'',
      CHR 0x09 # ''if x == 5 {'',
      CHR 0x09 # CHR 0x09 # ''return'',
      CHR 0x09 # ''}'',
      CHR 0x09 # ''println(x)'',
      ''}'',
      [],
      ''func Fwd(x, y int)'',
      [],
      ''func Empty() {}'']"

definition ex_logs :: LineIndex where
  \<open>ex_logs =
     [4 \<mapsto> [\<lparr>Log = ''fmt.Printf("Starting func Add with values: a: %+v, b: %+v'' @
                      [CHR 0x5C] @ ''n", a,b)'', Col = 2\<rparr>,
              \<lparr>Log = ''fmt.Println("Exiting func Add from line 5")'', Col = 2\<rparr>],
      8 \<mapsto> [\<lparr>Log = ''fmt.Printf("Starting func Check with values: x: %+v'' @
                      [CHR 0x5C] @ ''n", x)'', Col = 2\<rparr>],
      9 \<mapsto> [\<lparr>Log = ''fmt.Println("Exiting func Check from line 12")'', Col = 3\<rparr>],
      12 \<mapsto> [\<lparr>Log = ''fmt.Println("Exiting func Check from line 16")'', Col = 2\<rparr>],
      16 \<mapsto> [\<lparr>Log = ''fmt.Println("Starting func Empty")'', Col = 14\<rparr>,
               \<lparr>Log = ''fmt.Println("Exiting func Empty from line 22")'', Col = 15\<rparr>]]\<close>

definition ex_output :: "string list" where
  \<open>ex_output =
     [''package main'',
      [],
      ''func Add(a int, b int) int {'',
      CHR 0x09 # ''fmt.Printf("Starting func Add with values: a: %+v, b: %+v'' @
        [CHR 0x5C] @ ''n", a,b)'',
      CHR 0x09 # ''fmt.Println("Exiting func Add from line 5")'',
      CHR 0x09 # ''return a + b'',
      ''}'',
      [],
      ''func Check(x int) {'',
      CHR 0x09 # ''fmt.Printf("Starting func Check with values: x: %+v'' @
        [CHR 0x5C] @ ''n", x)'',
      CHR 0x09 # ''if x == 5 {'',
      CHR 0x09 # CHR 0x09 # ''fmt.Println("Exiting func Check from line 12")'',
      CHR 0x09 # CHR 0x09 # ''return'',
      CHR 0x09 # ''}'',
      CHR 0x09 # ''println(x)'',
      CHR 0x09 # ''fmt.Println("Exiting func Check from line 16")'',
      ''}'',
      [],
      ''func Fwd(x, y int)'',
      [],
      replicate 13 (CHR 0x09) @ ''fmt.Println("Starting func Empty")'',
      replicate 14 (CHR 0x09) @ ''fmt.Println("Exiting func Empty from line 22")'',
      ''func Empty() {}'']\<close>

text \<open>
  A file that already holds a line of the form of an entry statement (line 4 starts
  with a tab), and the file the program writes for it:
  \<^verbatim>\<open>
  1  package main
  2
  3  func f() {
  4      fmt.Println("Starting func f")
  5  }
  \<close>
\<close>

definition ex_Log :: FuncDecl where
  "ex_Log =
     \<lparr>Recv = None, Name = Some ''f'',
      FType = \<lparr>TypeParams = None, Params = Some [], Results = None\<rparr>,
      Body = Some \<lparr>Lbrace = 310,
                   List = [OtherNode 402
                             [OtherNode 402
                                [OtherNode 402 [OtherNode 402 [], OtherNode 406 []],
                                 OtherNode 414 []]]],
                   Rbrace = 501\<rparr>\<rparr>"

definition ex_root_Log :: File where
  "ex_root_Log = \<lparr>Decls = [Func ex_Log]\<rparr>"

definition ex_contents_Log :: "string list" where
  \<open>ex_contents_Log =
     [''package main'',
      [],
      ''func f() {'',
      CHR 0x09 # ''fmt.Println("Starting func f")'',
      ''}'']\<close>

definition ex_fs_Log :: FS where
  "ex_fs_Log = [''f.go'' \<mapsto> ex_contents_Log]"

definition ex_output_Log :: "string list" where
  \<open>ex_output_Log =
     [''package main'',
      [],
      ''func f() {'',
      CHR 0x09 # ''fmt.Println("Starting func f")'',
      CHR 0x09 # ''fmt.Println("Starting func f")'',
      CHR 0x09 # ''fmt.Println("Exiting func f from line 6")'',
      ''}'']\<close>

definition ex_fs :: FS where
  "ex_fs = [''src/ex.go'' \<mapsto> ex_contents]"

text \<open>
  A file with a line directive, as generated code has them. Its bytes: 13 for the
  first line with its line end, 1 for the second, 15 for the third, 11 for the
  fourth and 2 for the fifth; the base of the file is 1, so the opening brace
  (offset 38) is at position 39 and the closing brace (offset 40) at position 41.
  \<^verbatim>\<open>
  1  package main
  2
  3  //line gen.y:1
  4  func f() {
  5  }
  \<close>
\<close>

definition ex_file_Directive :: TokenFile where
  "ex_file_Directive =
     \<lparr>FileBase = 1, FileSize = 42, FileLines = [0, 13, 14, 29, 40],
      FileInfos = [\<lparr>InfoOffset = 29, InfoLine = 1, InfoColumn = 0\<rparr>]\<rparr>"

definition ex_Directive :: FuncDecl where
  "ex_Directive =
     \<lparr>Recv = None, Name = Some ''f'',
      FType = \<lparr>TypeParams = None, Params = Some [], Results = None\<rparr>,
      Body = Some \<lparr>Lbrace = 39, List = [], Rbrace = 41\<rparr>\<rparr>"

definition ex_root_Directive :: File where
  "ex_root_Directive = \<lparr>Decls = [Func ex_Directive]\<rparr>"

definition ex_fs_Directive :: FS where
  "ex_fs_Directive =
     [''gen.go'' \<mapsto> [''package main'', [], ''//line gen.y:1'', ''func f() {'', ''}'']]"

section \<open>The extractor records the functions with a valid body, and only those\<close>

lemma IsFuncBodyValid_iff:
  "IsFuncBodyValid body \<longleftrightarrow> (\<exists>b. body = Some b \<and> IsValid (Lbrace b) \<and> IsValid (Rbrace b))"
  by (auto simp: IsFuncBodyValid_def IsValid_def split: option.splits)

lemma ExtractFuncInfo_invalid:
  "\<not> IsFuncBodyValid (Body fn) \<Longrightarrow> ExtractFuncInfo fn fset = Inr (NewFuncInfo fset, False)"
  by (simp add: ExtractFuncInfo_def)

lemma ExtractFuncInfo_valid_ok:
  "IsFuncBodyValid (Body fn) \<Longrightarrow> ExtractFuncInfo fn fset = Inr (info, ok) \<Longrightarrow> ok"
  by (auto simp: ExtractFuncInfo_def Let_def split: sum.splits)

lemma ExtractFuncInfo_ok_valid:
  "ExtractFuncInfo fn fset = Inr (info, True) \<Longrightarrow> IsFuncBodyValid (Body fn)"
  by (auto simp: ExtractFuncInfo_def Let_def split: sum.splits if_splits)

lemma valid_funcs_Cons_Other: "valid_funcs (OtherDecl # ds) = valid_funcs ds"
  by (simp add: valid_funcs_def)

lemma valid_funcs_Cons_valid:
  "IsFuncBodyValid (Body fn) \<Longrightarrow> valid_funcs (Func fn # ds) = fn # valid_funcs ds"
  by (simp add: valid_funcs_def)

lemma valid_funcs_Cons_invalid:
  "\<not> IsFuncBodyValid (Body fn) \<Longrightarrow> valid_funcs (Func fn # ds) = valid_funcs ds"
  by (simp add: valid_funcs_def)

lemma set_valid_funcs:
  "fn \<in> set (valid_funcs ds) \<longleftrightarrow> Func fn \<in> set ds \<and> IsFuncBodyValid (Body fn)"
  by (induction ds) (auto simp: valid_funcs_def split: Decl.splits)

text \<open>The records found so far are only ever extended.\<close>

lemma GetAllFuncInfo_loop_acc:
  "GetAllFuncInfo_loop ds fset acc =
     (case GetAllFuncInfo_loop ds fset [] of Inl e \<Rightarrow> Inl e | Inr xs \<Rightarrow> Inr (acc @ xs))"
proof (induction ds arbitrary: acc)
  case Nil
  then show ?case by simp
next
  case (Cons d ds)
  show ?case
  proof (cases d)
    case OtherDecl
    then show ?thesis using Cons.IH[of acc] by simp
  next
    case (Func fn)
    show ?thesis
    proof (cases "ExtractFuncInfo fn fset")
      case (Inl e)
      then show ?thesis using Func by simp
    next
      case (Inr r)
      obtain info ok where r: "r = (info, ok)" by (cases r)
      show ?thesis
      proof (cases ok)
        case True
        show ?thesis
          using Func Inr r True Cons.IH[of "acc @ [info]"] Cons.IH[of "[info]"]
          by (simp split: sum.splits)
      next
        case False
        then show ?thesis using Func Inr r Cons.IH[of acc] by simp
      qed
    qed
  qed
qed

lemma GetAllFuncInfo_loop_skip:
  "GetAllFuncInfo_loop ds fset acc = GetAllFuncInfo_loop (map Func (valid_funcs ds)) fset acc"
proof (induction ds arbitrary: acc)
  case Nil
  then show ?case by (simp add: valid_funcs_def)
next
  case (Cons d ds)
  show ?case
  proof (cases d)
    case OtherDecl
    then show ?thesis using Cons.IH[of acc] by (simp add: valid_funcs_Cons_Other)
  next
    case (Func fn)
    show ?thesis
    proof (cases "IsFuncBodyValid (Body fn)")
      case True
      show ?thesis
        unfolding Func valid_funcs_Cons_valid[OF True] using Cons.IH
        by (simp split: sum.splits)
    next
      case False
      show ?thesis
        unfolding Func valid_funcs_Cons_invalid[OF False]
        using Cons.IH[of acc] ExtractFuncInfo_invalid[OF False, of fset]
        by simp
    qed
  qed
qed

lemma GetAllFuncInfo_loop_records:
  "GetAllFuncInfo_loop ds fset [] = Inr infos \<Longrightarrow>
   list_all2 (\<lambda>fn info. ExtractFuncInfo fn fset = Inr (info, True)) (valid_funcs ds) infos"
proof (induction ds arbitrary: infos)
  case Nil
  then show ?case by (simp add: valid_funcs_def)
next
  case (Cons d ds)
  show ?case
  proof (cases d)
    case OtherDecl
    then show ?thesis using Cons by (simp add: valid_funcs_Cons_Other)
  next
    case (Func fn)
    show ?thesis
    proof (cases "IsFuncBodyValid (Body fn)")
      case False
      show ?thesis
        unfolding Func valid_funcs_Cons_invalid[OF False]
        using Func Cons ExtractFuncInfo_invalid[OF False, of fset]
        by simp
    next
      case True
      obtain info ok where e: "ExtractFuncInfo fn fset = Inr (info, ok)"
        using Cons.prems Func by (auto split: sum.splits)
      have ok: ok using ExtractFuncInfo_valid_ok[OF True e] .
      have "GetAllFuncInfo_loop ds fset [info] = Inr infos"
        using Cons.prems Func e ok by simp
      then obtain xs where xs: "GetAllFuncInfo_loop ds fset [] = Inr xs" and i: "infos = info # xs"
        using GetAllFuncInfo_loop_acc[of ds fset "[info]"] by (auto split: sum.splits)
      show ?thesis
        unfolding Func valid_funcs_Cons_valid[OF True] i using Cons.IH[OF xs] e ok by simp
    qed
  qed
qed

text \<open>The example file, evaluated.\<close>

lemmas extract_simps =
  ExtractFuncInfo_def IsFuncBodyValid_def IsValid_def NoPos_def NewFuncInfo_def
  GetParamNames_def ExtractNameFromField_def exit_positions_def FindReturnStmts_def
  Inspect_FuncDecl_def Inspect_FieldList_def Inspect_Body_def Position_def

lemma ex_Add_info: "ExtractFuncInfo ex_Add ex_fset = Inr (ex_infos ! 0, True)"
  by (simp add: ex_Add_def ex_fset_def ex_infos_def extract_simps)

lemma ex_Check_info: "ExtractFuncInfo ex_Check ex_fset = Inr (ex_infos ! 1, True)"
  by (simp add: ex_Check_def ex_fset_def ex_infos_def extract_simps)

lemma ex_Empty_info: "ExtractFuncInfo ex_Empty ex_fset = Inr (ex_infos ! 2, True)"
  by (simp add: ex_Empty_def ex_fset_def ex_infos_def extract_simps)

lemma ex_Fwd_info: "ExtractFuncInfo ex_Fwd ex_fset = Inr (NewFuncInfo ex_fset, False)"
  by (simp add: ex_Fwd_def extract_simps)

lemma ex_GetAllFuncInfo: "GetAllFuncInfo ex_root ex_fset = Inr ex_infos"
  using ex_Add_info ex_Check_info ex_Empty_info ex_Fwd_info
  by (simp add: GetAllFuncInfo_def ex_root_def ex_infos_def)

lemma ex_valid_funcs: "valid_funcs (Decls ex_root) = [ex_Add, ex_Check, ex_Empty]"
  by (simp add: valid_funcs_def ex_root_def ex_Add_def ex_Check_def ex_Fwd_def ex_Empty_def
      IsFuncBodyValid_def IsValid_def NoPos_def)

text \<open>
  Claim C7. The extractor gives the same result on a file as on the file's function
  declarations with a valid body alone: a declaration that is not a function, or has
  no body, or a brace without a valid position, leaves no record and ends nothing
  (not even when one of its fields binds several names), and the declarations after
  it are still read; the whole run, and so the trace lines it inserts, is the same
  with and without such declarations. The records returned are, in source order,
  those of the function declarations whose body exists and has two valid braces.
\<close>

theorem records_only_for_valid_bodies:
  "GetAllFuncInfo root fset = GetAllFuncInfo \<lparr>Decls = map Func (valid_funcs (Decls root))\<rparr> fset \<and>
   AddLogsToFile root fset filePath fs =
     AddLogsToFile \<lparr>Decls = map Func (valid_funcs (Decls root))\<rparr> fset filePath fs \<and>
   (\<forall>infos. GetAllFuncInfo root fset = Inr infos \<longrightarrow>
      list_all2 (\<lambda>fn info. ExtractFuncInfo fn fset = Inr (info, True))
        (valid_funcs (Decls root)) infos) \<and>
   (\<forall>fn. fn \<in> set (valid_funcs (Decls root)) \<longleftrightarrow>
      Func fn \<in> set (Decls root) \<and>
      (\<exists>b. Body fn = Some b \<and> IsValid (Lbrace b) \<and> IsValid (Rbrace b))) \<and>
   (\<forall>fn. \<not> IsFuncBodyValid (Body fn) \<longrightarrow>
      ExtractFuncInfo fn fset = Inr (NewFuncInfo fset, False))"
  using GetAllFuncInfo_loop_skip[of "Decls root" fset "[]"]
    GetAllFuncInfo_loop_records[of "Decls root" fset]
    ExtractFuncInfo_invalid[of _ fset]
  by (simp add: AddLogsToFile_def GetAllFuncInfo_def set_valid_funcs IsFuncBodyValid_iff)

theorem records_only_for_valid_bodies_witness:
  "GetAllFuncInfo ex_root ex_fset = Inr ex_infos \<and>
   valid_funcs (Decls ex_root) = [ex_Add, ex_Check, ex_Empty] \<and>
   list_all2 (\<lambda>fn info. ExtractFuncInfo fn ex_fset = Inr (info, True))
     (valid_funcs (Decls ex_root)) ex_infos \<and>
   \<not> IsFuncBodyValid (Body ex_Fwd) \<and>
   ExtractFuncInfo ex_Fwd ex_fset = Inr (NewFuncInfo ex_fset, False)"
proof -
  have f: "\<not> IsFuncBodyValid (Body ex_Fwd)"
    by (simp add: ex_Fwd_def IsFuncBodyValid_def)
  show ?thesis
    using records_only_for_valid_bodies[of ex_root ex_fset] ex_GetAllFuncInfo ex_valid_funcs f
    by simp
qed

section \<open>A field that binds several names ends the run\<close>

lemma GetParamNames_loop_several:
  "list_ex (\<lambda>f. length (Names f) > 1) flds \<Longrightarrow>
   GetParamNames_loop flds acc = Inl (Fatal ''unknown parameter type'')"
proof (induction flds arbitrary: acc)
  case Nil
  then show ?case by simp
next
  case (Cons f flds)
  then show ?case
    by (cases "length (Names f) > 1") (auto simp: ExtractNameFromField_def)
qed

lemma GetParamNames_several:
  "list_ex (\<lambda>f. length (Names f) > 1) (fields_of fl) \<Longrightarrow>
   GetParamNames fl = Inl (Fatal ''unknown parameter type'')"
  by (cases fl) (auto simp: GetParamNames_def fields_of_def GetParamNames_loop_several)

lemma GetParamNames_loop_error:
  "GetParamNames_loop flds acc = Inl e \<Longrightarrow> e = Fatal ''unknown parameter type''"
proof (induction flds arbitrary: acc)
  case Nil
  then show ?case by simp
next
  case (Cons f flds)
  then show ?case
    by (auto simp: ExtractNameFromField_def split: if_splits)
qed

lemma GetParamNames_error:
  "GetParamNames fl = Inl e \<Longrightarrow> e = Fatal ''unknown parameter type''"
  by (cases fl) (auto simp: GetParamNames_def split: if_splits dest: GetParamNames_loop_error)

lemma ExtractFuncInfo_error:
  "ExtractFuncInfo fn fset = Inl e \<Longrightarrow> e = Fatal ''unknown parameter type''"
  by (auto simp: ExtractFuncInfo_def Let_def split: if_splits sum.splits dest: GetParamNames_error)

lemma ExtractFuncInfo_several:
  assumes "IsFuncBodyValid (Body fn)" and "binds_several fn"
  shows "ExtractFuncInfo fn fset = Inl (Fatal ''unknown parameter type'')"
proof (cases "list_ex (\<lambda>f. length (Names f) > 1) (fields_of (FuncType.Params (FType fn)))")
  case True
  then show ?thesis
    using assms(1) by (simp add: ExtractFuncInfo_def Let_def GetParamNames_several)
next
  case False
  then have r: "GetParamNames (Results (FType fn)) = Inl (Fatal ''unknown parameter type'')"
    using assms(2) by (auto simp: binds_several_def intro: GetParamNames_several)
  show ?thesis
  proof (cases "GetParamNames (FuncType.Params (FType fn))")
    case (Inl e)
    then show ?thesis
      using assms(1) GetParamNames_error[OF Inl] by (simp add: ExtractFuncInfo_def Let_def)
  next
    case (Inr ps)
    then show ?thesis
      using assms(1) r by (simp add: ExtractFuncInfo_def Let_def)
  qed
qed

lemma GetAllFuncInfo_loop_error:
  "GetAllFuncInfo_loop ds fset acc = Inl e \<Longrightarrow> e = Fatal ''unknown parameter type''"
proof (induction ds arbitrary: acc)
  case Nil
  then show ?case by simp
next
  case (Cons d ds)
  then show ?case
    by (cases d) (auto split: sum.splits if_splits dest: ExtractFuncInfo_error)
qed

lemma GetAllFuncInfo_loop_several:
  "Func fn \<in> set ds \<Longrightarrow> IsFuncBodyValid (Body fn) \<Longrightarrow> binds_several fn \<Longrightarrow>
   GetAllFuncInfo_loop ds fset acc = Inl (Fatal ''unknown parameter type'')"
proof (induction ds arbitrary: acc)
  case Nil
  then show ?case by simp
next
  case (Cons d ds)
  show ?case
  proof (cases "d = Func fn")
    case True
    then show ?thesis
      using ExtractFuncInfo_several[OF Cons.prems(2,3), of fset] by simp
  next
    case False
    then have m: "Func fn \<in> set ds" using Cons.prems(1) by simp
    note ih = Cons.IH[OF m Cons.prems(2,3)]
    show ?thesis
    proof (cases d)
      case OtherDecl
      then show ?thesis using ih by simp
    next
      case (Func g)
      show ?thesis
      proof (cases "ExtractFuncInfo g fset")
        case (Inl e)
        then show ?thesis using Func ExtractFuncInfo_error[OF Inl] by simp
      next
        case (Inr r)
        then show ?thesis using Func ih by (cases r) simp
      qed
    qed
  qed
qed

text \<open>
  Claim C8. When a function declaration that is processed (one with a valid body)
  has a parameter or result field binding more than one name, the run ends with the
  fatal message of \<^verbatim>\<open>ExtractNameFromField\<close>, and the file system is as it was: the
  destination has not been created.
\<close>

theorem several_names_abort:
  "Func fn \<in> set (Decls root) \<Longrightarrow> IsFuncBodyValid (Body fn) \<Longrightarrow> binds_several fn \<Longrightarrow>
   AddLogsToFile root fset filePath fs = (Some (Fatal ''unknown parameter type''), fs)"
  using GetAllFuncInfo_loop_several[of fn "Decls root" fset "[]"]
  by (simp add: AddLogsToFile_def GetAllFuncInfo_def)

theorem several_names_abort_witness:
  "Func ex_Pair \<in> set (Decls ex_root_Pair) \<and> IsFuncBodyValid (Body ex_Pair) \<and>
   binds_several ex_Pair \<and>
   AddLogsToFile ex_root_Pair ex_fset ''pair.go'' ex_fs_Pair =
     (Some (Fatal ''unknown parameter type''), ex_fs_Pair)"
proof -
  have a: "Func ex_Pair \<in> set (Decls ex_root_Pair)"
    by (simp add: ex_root_Pair_def)
  have b: "IsFuncBodyValid (Body ex_Pair)"
    by (simp add: ex_Pair_def IsFuncBodyValid_def IsValid_def NoPos_def)
  have c: "binds_several ex_Pair"
    by (simp add: ex_Pair_def binds_several_def fields_of_def)
  show ?thesis
    using several_names_abort[OF a b c, of ex_fset "''pair.go''" ex_fs_Pair] a b c by simp
qed

section \<open>Entry and exit positions\<close>

lemma ExtractFuncInfo_positions:
  assumes "ExtractFuncInfo fn fset = Inr (info, True)"
  obtains b where "Body fn = Some b" and "IsValid (Lbrace b)" and "IsValid (Rbrace b)"
    and "EntryLogPos info =
          (if List b = [] then Position fset (Lbrace b) else Position fset (Pos (hd (List b))))"
    and "ExitLogPos info = exit_positions b fset (FindReturnStmts fn fset)"
proof -
  have v: "IsFuncBodyValid (Body fn)" using ExtractFuncInfo_ok_valid[OF assms] .
  then obtain b where b: "Body fn = Some b" "IsValid (Lbrace b)" "IsValid (Rbrace b)"
    by (auto simp: IsFuncBodyValid_iff)
  have "EntryLogPos info =
          (if List b = [] then Position fset (Lbrace b) else Position fset (Pos (hd (List b))))"
    using assms v b(1)
    by (auto simp: ExtractFuncInfo_def Let_def split: sum.splits option.splits if_splits)
  moreover have "ExitLogPos info = exit_positions b fset (FindReturnStmts fn fset)"
    using assms v b(1)
    by (auto simp: ExtractFuncInfo_def Let_def split: sum.splits option.splits if_splits)
  ultimately show ?thesis using that b by blast
qed

lemma last_stmt_in_body:
  "List b \<noteq> [] \<Longrightarrow> last (List b) \<in> set (concat (map Inspect (List b)))"
proof -
  assume "List b \<noteq> []"
  then have "last (List b) \<in> set (List b)" by simp
  moreover have "last (List b) \<in> set (Inspect (last (List b)))"
    by (cases "last (List b)") simp_all
  ultimately show ?thesis by auto
qed

lemma FindReturnStmts_length:
  "length (FindReturnStmts fn fset) = length (signature_returns fn) + length (body_returns fn)"
  by (simp add: FindReturnStmts_def Inspect_FuncDecl_def signature_returns_def body_returns_def)

lemma last_is_return_body_returns:
  "Body fn = Some b \<Longrightarrow> last_is_return b \<Longrightarrow> body_returns fn \<noteq> []"
  using last_stmt_in_body[of b]
  by (auto simp: last_is_return_def body_returns_def Inspect_Body_def filter_empty_conv)

text \<open>
  The number of exit positions of a record: the return statements that
  \<^verbatim>\<open>ast.Inspect\<close> finds below the declaration, and one more unless the last
  top-level statement of the body is a return statement.
\<close>

lemma exit_count_declaration:
  assumes "ExtractFuncInfo fn fset = Inr (info, True)" and "Body fn = Some b"
  shows "length (ExitLogPos info) =
           length (signature_returns fn) + length (body_returns fn) +
           (if last_is_return b then 0 else 1)"
proof -
  have e: "ExitLogPos info = exit_positions b fset (FindReturnStmts fn fset)"
    using assms by (auto elim: ExtractFuncInfo_positions)
  show ?thesis
  proof (cases "last_is_return b")
    case True
    then have "length (FindReturnStmts fn fset) \<noteq> 0"
      using last_is_return_body_returns[OF assms(2)] by (simp add: FindReturnStmts_length)
    then show ?thesis
      unfolding e using True
      by (simp add: exit_positions_def Let_def last_is_return_def FindReturnStmts_length)
  next
    case False
    then show ?thesis
      unfolding e
      by (simp add: exit_positions_def Let_def last_is_return_def FindReturnStmts_length)
  qed
qed

text \<open>
  When no return statement stands in the receiver, the type parameters, the
  parameters or the results, the count is that of the body's return statements, and
  one more exactly when the body has none or does not end in one.
\<close>

lemma exit_count_body:
  assumes "ExtractFuncInfo fn fset = Inr (info, True)" and "Body fn = Some b"
    and "signature_returns fn = []"
  shows "length (ExitLogPos info) =
           length (body_returns fn) +
           (if body_returns fn = [] \<or> \<not> last_is_return b then 1 else 0)"
  using exit_count_declaration[OF assms(1,2)] assms(3)
    last_is_return_body_returns[OF assms(2)]
  by auto

text \<open>
  Claim C1. The claim counts the return statements of the body; the program counts
  those of the whole declaration. For \<^verbatim>\<open>func f(a [func() int { return 1 }()]int) {}\<close>
  the body has no return statement, so the claim gives one exit position (the
  synthetic one); the program records two, the first at the return statement inside
  the parameter's type.
\<close>

theorem return_in_signature_is_counted:
  "ExtractFuncInfo ex_Sig ex_fset =
     Inr (\<lparr>Name = ''f'', Params = [''a''], Returns = [],
           EntryLogPos = \<lparr>Line = 3, Column = 42\<rparr>,
           ExitLogPos = [\<lparr>Line = 3, Column = 24\<rparr>, \<lparr>Line = 3, Column = 43\<rparr>]\<rparr>, True) \<and>
   body_returns ex_Sig = []"
  by (simp add: ex_Sig_def ex_fset_def extract_simps body_returns_def)

text \<open>
  Claim C6, as stated, fails: for \<^verbatim>\<open>func Empty() {}\<close> the opening brace is in column 14
  and the synthetic exit position has column 15, the column of the closing brace.
\<close>

theorem empty_body_exit_column_counterexample:
  "ExtractFuncInfo ex_Empty ex_fset =
     Inr (\<lparr>Name = ''Empty'', Params = [], Returns = [],
           EntryLogPos = \<lparr>Line = 16, Column = 14\<rparr>,
           ExitLogPos = [\<lparr>Line = 16, Column = 15\<rparr>]\<rparr>, True) \<and>
   List (the (Body ex_Empty)) = [] \<and>
   Position ex_fset (Lbrace (the (Body ex_Empty))) = \<lparr>Line = 16, Column = 14\<rparr>"
  by (simp add: ex_Empty_def ex_fset_def extract_simps)

text \<open>
  Claim C6, amended. For a recorded function whose body has no statements, the entry
  position is the position of the opening brace, and the last exit position is the
  synthetic one, which is the position of the closing brace: its line and its
  column.
\<close>

theorem empty_body_positions:
  "ExtractFuncInfo fn fset = Inr (info, True) \<Longrightarrow> Body fn = Some b \<Longrightarrow> List b = [] \<Longrightarrow>
   EntryLogPos info = Position fset (Lbrace b) \<and>
   ExitLogPos info = FindReturnStmts fn fset @ [Position fset (Rbrace b)]"
  by (erule ExtractFuncInfo_positions) (simp add: exit_positions_def)

theorem empty_body_positions_witness:
  "ExtractFuncInfo ex_Empty ex_fset = Inr (ex_infos ! 2, True) \<and>
   Body ex_Empty = Some \<lparr>Lbrace = 1614, List = [], Rbrace = 1615\<rparr> \<and>
   EntryLogPos (ex_infos ! 2) = Position ex_fset 1614 \<and>
   ExitLogPos (ex_infos ! 2) = FindReturnStmts ex_Empty ex_fset @ [Position ex_fset 1615]"
proof -
  have b: "Body ex_Empty = Some \<lparr>Lbrace = 1614, List = [], Rbrace = 1615\<rparr>"
    by (simp add: ex_Empty_def)
  show ?thesis
    using empty_body_positions[OF ex_Empty_info b] ex_Empty_info b by simp
qed

section \<open>The generated trace lines\<close>

lemma lookup_append_log:
  "lookup (append_log logs k li) n = (if n = k then lookup logs k @ [li] else lookup logs n)"
  by (simp add: lookup_def append_log_def)

lemma add_all_Nil: "add_all [] logs = logs"
  by (simp add: add_all_def)

lemma add_all_Cons: "add_all ((l, li) # xs) logs = add_all xs (append_log logs l li)"
  by (simp add: add_all_def)

lemma add_all_append: "add_all (xs @ ys) logs = add_all ys (add_all xs logs)"
  by (simp add: add_all_def)

lemma lookup_add_all:
  "lookup (add_all xs logs) n = lookup logs n @ map snd (filter (\<lambda>x. fst x = n) xs)"
proof (induction xs arbitrary: logs)
  case Nil
  then show ?case by (simp add: add_all_Nil)
next
  case (Cons x xs)
  obtain l li where x: "x = (l, li)" by (cases x)
  show ?case
    unfolding x add_all_Cons Cons.IH by (simp add: lookup_append_log)
qed

lemma dom_add_all: "dom (add_all xs logs) = dom logs \<union> fst ` set xs"
proof (induction xs arbitrary: logs)
  case Nil
  then show ?case by (simp add: add_all_Nil)
next
  case (Cons x xs)
  obtain l li where x: "x = (l, li)" by (cases x)
  show ?case
    unfolding x add_all_Cons Cons.IH by (auto simp: append_log_def)
qed

lemma gen_from_append:
  "gen_from k (xs @ ys) = gen_from k xs @ gen_from (k + length xs) ys"
  by (induction xs arbitrary: k) simp_all

lemma length_gen_from: "length (gen_from k pts) = length pts"
  by (induction pts arbitrary: k) simp_all

lemma gen_from_nth:
  "i < length pts \<Longrightarrow> gen_from k pts ! i = (point_line (pts ! i), point_log (k + i) (pts ! i))"
proof (induction pts arbitrary: k i)
  case Nil
  then show ?case by simp
next
  case (Cons pt pts)
  then show ?case by (cases i) simp_all
qed

lemma gen_from_map:
  "gen_from k pts = map (\<lambda>i. (point_line (pts ! i), point_log (k + i) (pts ! i))) [0..<length pts]"
  by (rule nth_equalityI) (simp_all add: length_gen_from gen_from_nth)

lemma GenerateLogs_exits_gen:
  "ps = drop idx (ExitLogPos info) \<Longrightarrow>
   GenerateLogs_exits info idx ps (logs, int k) =
     Inr (add_all (gen_from k (map (ExitPoint info) ps)) logs, int (k + length ps))"
proof (induction ps arbitrary: idx logs k)
  case Nil
  then show ?case by (simp add: add_all_Nil)
next
  case (Cons p ps)
  have i: "idx < length (ExitLogPos info)"
    using Cons.prems by (metis drop_eq_Nil2 list.distinct(1) not_le)
  have p: "ExitLogPos info ! idx = p"
    using Cons.prems i by (metis Cons_nth_drop_Suc list.inject)
  have d: "ps = drop (idx + 1) (ExitLogPos info)"
    using Cons.prems i by (metis Cons_nth_drop_Suc Suc_eq_plus1 list.inject)
  have g: "GetExitLogInfo info idx (Line p + int k) = Inr (point_log k (ExitPoint info p))"
    using i p by (simp add: GetExitLogInfo_def exit_text_def)
  have s: "int k + 1 = int (Suc k)" by simp
  show ?case
    using Cons.IH[OF d, of "append_log logs (Line p) (point_log k (ExitPoint info p))" "Suc k"]
    unfolding GenerateLogs_exits.simps g s
    by (simp add: add_all_Cons)
qed

lemma trace_points_Cons:
  "trace_points (info # fnInfo) =
     EntryPoint info # map (ExitPoint info) (ExitLogPos info) @ trace_points fnInfo"
  by (simp add: trace_points_def)

lemma GenerateLogs_loop_gen:
  "GenerateLogs_loop fnInfo (logs, int k) =
     Inr (add_all (gen_from k (trace_points fnInfo)) logs,
          int (k + length (trace_points fnInfo)))"
proof (induction fnInfo arbitrary: logs k)
  case Nil
  then show ?case by (simp add: trace_points_def add_all_Nil)
next
  case (Cons info fnInfo)
  have s: "int k + 1 = int (Suc k)" by simp
  have e: "GenerateLogs_exits info 0 (ExitLogPos info)
             (append_log logs (Line (EntryLogPos info)) (GetEntryLogInfo info), int (Suc k)) =
           Inr (add_all (gen_from (Suc k) (map (ExitPoint info) (ExitLogPos info)))
                  (append_log logs (Line (EntryLogPos info)) (GetEntryLogInfo info)),
                int (Suc k + length (ExitLogPos info)))"
    by (rule GenerateLogs_exits_gen) simp
  have t: "gen_from k (trace_points (info # fnInfo)) =
             (Line (EntryLogPos info), GetEntryLogInfo info) #
             gen_from (Suc k) (map (ExitPoint info) (ExitLogPos info)) @
             gen_from (Suc k + length (ExitLogPos info)) (trace_points fnInfo)"
    by (simp add: trace_points_Cons gen_from_append)
  have n: "int (Suc k + length (ExitLogPos info) + length (trace_points fnInfo)) =
           int (k + length (trace_points (info # fnInfo)))"
    by (simp add: trace_points_Cons)
  show ?case
    unfolding GenerateLogs_loop.simps s e t add_all_Cons add_all_append n[symmetric]
    using Cons.IH[of _ "Suc k + length (ExitLogPos info)"]
    by simp
qed

lemma GenerateLogs_gen:
  "GenerateLogs fnInfo = Inr (add_all (gen_from 0 (trace_points fnInfo)) Map.empty)"
  using GenerateLogs_loop_gen[of fnInfo Map.empty 0] by (simp add: GenerateLogs_def)

lemma lookup_generated:
  "lookup (add_all (gen_from 0 pts) Map.empty) n =
     map (\<lambda>k. point_log k (pts ! k)) (filter (\<lambda>k. point_line (pts ! k) = n) [0..<length pts])"
  unfolding lookup_add_all gen_from_map
  by (simp add: lookup_def filter_map comp_def)

lemma GetParamLog_loop_named:
  "GetParamLog_loop params (a, b, c) =
     (a @ concat (map (\<lambda>p. p @ '': %+v, '') (filter (\<lambda>p. p \<noteq> []) params)),
      b @ concat (map (\<lambda>p. p @ '','') (filter (\<lambda>p. p \<noteq> []) params)),
      c + int (length (filter (\<lambda>p. p \<noteq> []) params)))"
  by (induction params arbitrary: a b c) simp_all

lemma concat_sep_Join:
  "xs \<noteq> [] \<Longrightarrow> concat (map (\<lambda>p. f p @ sep) xs) = Join (map f xs) sep @ sep"
proof (induction xs)
  case Nil
  then show ?case by simp
next
  case (Cons x xs)
  then show ?case by (cases xs) simp_all
qed

lemma TrimSuffix_append: "TrimSuffix (s @ suffix) suffix = s"
  by (simp add: TrimSuffix_def HasSuffix_def)

lemma TrimSuffix_Nil: "suffix \<noteq> [] \<Longrightarrow> TrimSuffix [] suffix = []"
  by (simp add: TrimSuffix_def HasSuffix_def)

lemma GetParamLog_named:
  "GetParamLog params =
     (let named = filter (\<lambda>p. p \<noteq> []) params in
      (Join (map (\<lambda>p. p @ '': %+v'') named) '', '', Join named '','', int (length named)))"
proof (cases "filter (\<lambda>p. p \<noteq> []) params = []")
  case True
  then show ?thesis
    by (simp add: GetParamLog_def GetParamLog_loop_named TrimSuffix_Nil)
next
  case False
  then have p: "params \<noteq> []" by auto
  have a: "concat (map (\<lambda>p. p @ '': %+v, '') (filter (\<lambda>p. p \<noteq> []) params)) =
           Join (map (\<lambda>p. p @ '': %+v'') (filter (\<lambda>p. p \<noteq> []) params)) '', '' @ '', ''"
    using concat_sep_Join[OF False, of "\<lambda>p. p @ '': %+v''" "'', ''"] by simp
  have b: "concat (map (\<lambda>p. p @ '','') (filter (\<lambda>p. p \<noteq> []) params)) =
           Join (filter (\<lambda>p. p \<noteq> []) params) '','' @ '',''"
    using concat_sep_Join[OF False, of "\<lambda>p. p" "'',''"] by simp
  show ?thesis
    using p unfolding GetParamLog_def GetParamLog_loop_named Let_def
    by (simp only: a b append_Nil TrimSuffix_append if_False split add_0)
qed

lemma GetEntryLogInfo_text:
  "GetEntryLogInfo info =
     \<lparr>Log = entry_text ''%+v'' (Name info) (Params info), Col = Column (EntryLogPos info)\<rparr>"
  by (simp add: GetEntryLogInfo_def GetParamLog_named entry_text_def Let_def)

lemma GetEntryLogInfo_unnamed:
  "GetEntryLogInfo (info\<lparr>Params := filter (\<lambda>p. p \<noteq> []) (Params info)\<rparr>) = GetEntryLogInfo info"
  by (simp add: GetEntryLogInfo_text entry_text_def)

lemma is_entry_log_entry: "is_entry_log (GetEntryLogInfo info)"
  by (simp add: GetEntryLogInfo_text entry_text_def is_entry_log_def HasPrefix_def Let_def)

lemma is_entry_log_exit: "\<not> is_entry_log \<lparr>Log = exit_text name n, Col = c\<rparr>"
  by (simp add: exit_text_def is_entry_log_def HasPrefix_def)

text \<open>
  Claim C2. The index of generated lines holds, for every line \<open>n\<close>, the trace lines
  of the points of line \<open>n\<close> in the order of generation, where the \<open>k\<close>-th point
  (counted from 0 over the whole file: the functions in the order of their records,
  the entry of a function before its exits) is rendered by \<open>point_log k\<close>: an exit at
  position \<open>p\<close> displays \<open>Line p + k\<close>, its raw line plus the number of trace lines
  generated before it. The first exit of the first function is point 1 and displays its
  raw line plus 1.
\<close>

theorem exit_line_compensated:
  "\<exists>logs. GenerateLogs fnInfo = Inr logs \<and>
     (\<forall>n. lookup logs n =
        map (\<lambda>k. point_log k (trace_points fnInfo ! k))
          (filter (\<lambda>k. point_line (trace_points fnInfo ! k) = n)
             [0..<length (trace_points fnInfo)])) \<and>
     (\<forall>info rest p ps. fnInfo = info # rest \<and> ExitLogPos info = p # ps \<longrightarrow>
        trace_points fnInfo ! 0 = EntryPoint info \<and>
        trace_points fnInfo ! 1 = ExitPoint info p \<and>
        point_log 1 (trace_points fnInfo ! 1) =
          \<lparr>Log = exit_text (Name info) (Line p + 1), Col = Column p\<rparr>)"
proof -
  have "\<forall>info rest p ps. fnInfo = info # rest \<and> ExitLogPos info = p # ps \<longrightarrow>
        trace_points fnInfo ! 0 = EntryPoint info \<and>
        trace_points fnInfo ! 1 = ExitPoint info p \<and>
        point_log 1 (trace_points fnInfo ! 1) =
          \<lparr>Log = exit_text (Name info) (Line p + 1), Col = Column p\<rparr>"
    by (auto simp: trace_points_Cons)
  then show ?thesis
    using lookup_generated[of "trace_points fnInfo"]
    by (simp add: GenerateLogs_gen)
qed

lemma ex_points:
  "trace_points ex_infos =
     [EntryPoint (ex_infos ! 0), ExitPoint (ex_infos ! 0) \<lparr>Line = 4, Column = 2\<rparr>,
      EntryPoint (ex_infos ! 1), ExitPoint (ex_infos ! 1) \<lparr>Line = 9, Column = 3\<rparr>,
      ExitPoint (ex_infos ! 1) \<lparr>Line = 12, Column = 2\<rparr>,
      EntryPoint (ex_infos ! 2), ExitPoint (ex_infos ! 2) \<lparr>Line = 16, Column = 15\<rparr>]"
  by (simp add: trace_points_def ex_infos_def)

lemma upt7: "[0..<7] = [0, 1, 2, 3, 4, 5, 6]"
  by (simp add: upt_rec)

lemmas format_simps = FormatInt_def FormatNat.simps

theorem exit_line_compensated_witness:
  \<open>\<exists>logs. GenerateLogs ex_infos = Inr logs \<and>
     lookup logs 4 =
       [\<lparr>Log = ''fmt.Printf("Starting func Add with values: a: %+v, b: %+v'' @ [CHR 0x5C] @ ''n", a,b)'', Col = 2\<rparr>,
        \<lparr>Log = ''fmt.Println("Exiting func Add from line 5")'', Col = 2\<rparr>] \<and>
     lookup logs 9 = [\<lparr>Log = ''fmt.Println("Exiting func Check from line 12")'', Col = 3\<rparr>] \<and>
     lookup logs 12 = [\<lparr>Log = ''fmt.Println("Exiting func Check from line 16")'', Col = 2\<rparr>] \<and>
     lookup logs 16 =
       [\<lparr>Log = ''fmt.Println("Starting func Empty")'', Col = 14\<rparr>,
        \<lparr>Log = ''fmt.Println("Exiting func Empty from line 22")'', Col = 15\<rparr>]\<close>
proof -
  obtain logs where g: "GenerateLogs ex_infos = Inr logs"
    and l: "\<And>n. lookup logs n =
        map (\<lambda>k. point_log k (trace_points ex_infos ! k))
          (filter (\<lambda>k. point_line (trace_points ex_infos ! k) = n)
             [0..<length (trace_points ex_infos)])"
    using exit_line_compensated[of ex_infos] by blast
  have \<open>lookup logs 4 =
       [\<lparr>Log = ''fmt.Printf("Starting func Add with values: a: %+v, b: %+v'' @ [CHR 0x5C] @ ''n", a,b)'', Col = 2\<rparr>,
        \<lparr>Log = ''fmt.Println("Exiting func Add from line 5")'', Col = 2\<rparr>]\<close>
    unfolding l ex_points
    by (simp add: upt7 ex_infos_def GetEntryLogInfo_text entry_text_def exit_text_def format_simps)
  moreover have \<open>lookup logs 9 = [\<lparr>Log = ''fmt.Println("Exiting func Check from line 12")'', Col = 3\<rparr>]\<close>
    unfolding l ex_points
    by (simp add: upt7 ex_infos_def GetEntryLogInfo_text entry_text_def exit_text_def format_simps)
  moreover have \<open>lookup logs 12 = [\<lparr>Log = ''fmt.Println("Exiting func Check from line 16")'', Col = 2\<rparr>]\<close>
    unfolding l ex_points
    by (simp add: upt7 ex_infos_def GetEntryLogInfo_text entry_text_def exit_text_def format_simps)
  moreover have \<open>lookup logs 16 =
       [\<lparr>Log = ''fmt.Println("Starting func Empty")'', Col = 14\<rparr>,
        \<lparr>Log = ''fmt.Println("Exiting func Empty from line 22")'', Col = 15\<rparr>]\<close>
    unfolding l ex_points
    by (simp add: upt7 ex_infos_def GetEntryLogInfo_text entry_text_def exit_text_def format_simps)
  ultimately show ?thesis using g by blast
qed

lemma GetParamNames_loop_names:
  "\<not> list_ex (\<lambda>f. length (Names f) > 1) flds \<Longrightarrow>
   GetParamNames_loop flds acc = Inr (acc @ map field_name flds)"
proof (induction flds arbitrary: acc)
  case Nil
  then show ?case by simp
next
  case (Cons f flds)
  then show ?case
    by (simp add: ExtractNameFromField_def field_name_def)
qed

lemma GetParamNames_names:
  "\<not> list_ex (\<lambda>f. length (Names f) > 1) flds \<Longrightarrow>
   GetParamNames (Some flds) = Inr (map field_name flds)"
  by (simp add: GetParamNames_def GetParamNames_loop_names)

lemma lookup_empty: "lookup Map.empty n = []"
  by (simp add: lookup_def)

lemma exits_no_entry:
  "filter (\<lambda>x. is_entry_log (snd x)) (gen_from k (map (ExitPoint info) ps)) = []"
  by (induction ps arbitrary: k) (simp_all add: is_entry_log_exit)

lemma entries_per_line:
  "length (filter (\<lambda>x. fst x = n \<and> is_entry_log (snd x)) (gen_from k (trace_points fnInfo))) =
   length (filter (\<lambda>i. Line (EntryLogPos i) = n) fnInfo)"
proof (induction fnInfo arbitrary: k)
  case Nil
  then show ?case by (simp add: trace_points_def)
next
  case (Cons info fnInfo)
  have e: "filter (\<lambda>x. fst x = n \<and> is_entry_log (snd x))
             (gen_from (Suc k) (map (ExitPoint info) (ExitLogPos info))) = []"
    using exits_no_entry[of "Suc k" info "ExitLogPos info"]
    by (simp add: filter_empty_conv)
  show ?case
    unfolding trace_points_Cons gen_from.simps gen_from_append filter_append filter.simps e
    using Cons.IH[of "Suc k + length (map (ExitPoint info) (ExitLogPos info))"]
    by (simp add: is_entry_log_entry)
qed

lemma entries_in_index:
  "length (filter is_entry_log (lookup (add_all (gen_from 0 (trace_points fnInfo)) Map.empty) n)) =
   length (filter (\<lambda>i. Line (EntryLogPos i) = n) fnInfo)"
proof -
  have "filter is_entry_log (map snd (filter (\<lambda>x. fst x = n) (gen_from 0 (trace_points fnInfo)))) =
        map snd (filter (\<lambda>x. fst x = n \<and> is_entry_log (snd x)) (gen_from 0 (trace_points fnInfo)))"
    by (simp add: filter_map comp_def)
  then show ?thesis
    using entries_per_line[of n 0 fnInfo]
    by (simp add: lookup_add_all lookup_empty)
qed

text \<open>
  Claim C5, as stated, fails in the placeholder: the generated statement formats each
  parameter with \<^verbatim>\<open>%+v\<close>, not with \<^verbatim>\<open>%v\<close>.
\<close>

theorem entry_placeholder_counterexample:
  \<open>Log (GetEntryLogInfo (ex_infos ! 0)) =
     ''fmt.Printf("Starting func Add with values: a: %+v, b: %+v'' @ [CHR 0x5C] @ ''n", a,b)'' \<and>
   entry_text ''%v'' ''Add'' [''a'', ''b''] =
     ''fmt.Printf("Starting func Add with values: a: %v, b: %v'' @ [CHR 0x5C] @ ''n", a,b)'' \<and>
   Log (GetEntryLogInfo (ex_infos ! 0)) \<noteq> entry_text ''%v'' ''Add'' [''a'', ''b'']\<close>
  by (simp add: ex_infos_def GetEntryLogInfo_text entry_text_def)

text \<open>
  Claim C5, amended. The entry statement of a record is the text of the
  specification with the placeholder \<^verbatim>\<open>%+v\<close>: a \<^verbatim>\<open>fmt.Printf\<close> that lists every
  parameter with a non-empty name, in declared order, and takes those parameters as
  arguments, or a plain \<^verbatim>\<open>fmt.Println\<close> of \<open>Starting func\<close> and the name when no
  parameter has a name. Parameters without a name render nothing, and they stay in the
  list of parameter names as empty strings. Every line of the index holds as many
  entry statements as there are records whose entry position is on that line: one for
  each recorded function.
\<close>

theorem entry_trace_text:
  "GetEntryLogInfo info =
     \<lparr>Log = entry_text ''%+v'' (Name info) (Params info), Col = Column (EntryLogPos info)\<rparr> \<and>
   GetEntryLogInfo (info\<lparr>Params := filter (\<lambda>p. p \<noteq> []) (Params info)\<rparr>) = GetEntryLogInfo info \<and>
   (\<forall>flds. \<not> list_ex (\<lambda>f. length (Names f) > 1) flds \<longrightarrow>
      GetParamNames (Some flds) = Inr (map field_name flds)) \<and>
   (\<exists>logs. GenerateLogs fnInfo = Inr logs \<and>
      (\<forall>n. length (filter is_entry_log (lookup logs n)) =
           length (filter (\<lambda>i. Line (EntryLogPos i) = n) fnInfo)))"
  using GetEntryLogInfo_text[of info] GetEntryLogInfo_unnamed[of info]
    GetParamNames_names entries_in_index[of fnInfo]
  by (simp add: GenerateLogs_gen)

theorem entry_trace_text_witness:
  \<open>GetEntryLogInfo (ex_infos ! 0) =
     \<lparr>Log = ''fmt.Printf("Starting func Add with values: a: %+v, b: %+v'' @ [CHR 0x5C] @ ''n", a,b)'',
      Col = 2\<rparr> \<and>
   GetEntryLogInfo (ex_infos ! 2) = \<lparr>Log = ''fmt.Println("Starting func Empty")'', Col = 14\<rparr> \<and>
   GetParamNames (Some [\<lparr>Names = [''a''], Type = OtherNode 312 []\<rparr>,
                        \<lparr>Names = [], Type = OtherNode 319 []\<rparr>]) = Inr [''a'', []] \<and>
   GetEntryLogInfo \<lparr>Name = ''g'', Params = [''a'', []], Returns = [],
                    EntryLogPos = \<lparr>Line = 4, Column = 2\<rparr>, ExitLogPos = []\<rparr> =
     \<lparr>Log = ''fmt.Printf("Starting func g with values: a: %+v'' @ [CHR 0x5C] @ ''n", a)'', Col = 2\<rparr> \<and>
   (\<exists>logs. GenerateLogs ex_infos = Inr logs \<and>
      length (filter is_entry_log (lookup logs 4)) = 1 \<and>
      length (filter is_entry_log (lookup logs 9)) = 0)\<close>
proof -
  have f: "\<not> list_ex (\<lambda>f. length (Names f) > 1)
             [\<lparr>Names = [''a''], Type = OtherNode 312 []\<rparr>, \<lparr>Names = [], Type = OtherNode 319 []\<rparr>]"
    by simp
  note t0 = entry_trace_text[of "ex_infos ! 0" ex_infos]
  note t2 = entry_trace_text[of "ex_infos ! 2" ex_infos]
  note tg = entry_trace_text[of "\<lparr>Name = ''g'', Params = [''a'', []], Returns = [],
                    EntryLogPos = \<lparr>Line = 4, Column = 2\<rparr>, ExitLogPos = []\<rparr>" ex_infos]
  have a: \<open>GetEntryLogInfo (ex_infos ! 0) =
     \<lparr>Log = ''fmt.Printf("Starting func Add with values: a: %+v, b: %+v'' @ [CHR 0x5C] @ ''n", a,b)'',
      Col = 2\<rparr>\<close>
    using t0 by (simp add: ex_infos_def entry_text_def)
  have b: \<open>GetEntryLogInfo (ex_infos ! 2) = \<lparr>Log = ''fmt.Println("Starting func Empty")'', Col = 14\<rparr>\<close>
    using t2 by (simp add: ex_infos_def entry_text_def)
  have c: "GetParamNames (Some [\<lparr>Names = [''a''], Type = OtherNode 312 []\<rparr>,
                        \<lparr>Names = [], Type = OtherNode 319 []\<rparr>]) = Inr [''a'', []]"
    using t0 f by (simp add: field_name_def)
  have d: \<open>GetEntryLogInfo \<lparr>Name = ''g'', Params = [''a'', []], Returns = [],
                    EntryLogPos = \<lparr>Line = 4, Column = 2\<rparr>, ExitLogPos = []\<rparr> =
     \<lparr>Log = ''fmt.Printf("Starting func g with values: a: %+v'' @ [CHR 0x5C] @ ''n", a)'', Col = 2\<rparr>\<close>
    using tg by (simp add: entry_text_def)
  have e: "\<exists>logs. GenerateLogs ex_infos = Inr logs \<and>
      length (filter is_entry_log (lookup logs 4)) = 1 \<and>
      length (filter is_entry_log (lookup logs 9)) = 0"
  proof -
    obtain logs where g: "GenerateLogs ex_infos = Inr logs"
      and l: "\<And>n. length (filter is_entry_log (lookup logs n)) =
           length (filter (\<lambda>i. Line (EntryLogPos i) = n) ex_infos)"
      using t0 by blast
    have "length (filter is_entry_log (lookup logs 4)) = 1"
      unfolding l by (simp add: ex_infos_def)
    moreover have "length (filter is_entry_log (lookup logs 9)) = 0"
      unfolding l by (simp add: ex_infos_def)
    ultimately show ?thesis using g by blast
  qed
  show ?thesis using a b c d e by blast
qed

section \<open>The merger\<close>

lemma concat_replicate_single: "concat (replicate n [c]) = replicate n c"
  by (induction n) simp_all

lemma upt_0_Suc: "[0..<Suc n] = 0 # map Suc [0..<n]"
  by (simp only: upt_conv_Cons[OF zero_less_Suc] map_Suc_upt)

lemma WriteLogs_infos_char:
  "WriteLogs_infos infos wr =
     (if list_all (\<lambda>li. 1 \<le> Col li) infos then Inr (wr @ map render_log infos)
      else Inl (Panic ''strings: negative Repeat count''))"
proof (induction infos arbitrary: wr)
  case Nil
  then show ?case by simp
next
  case (Cons li infos)
  show ?case
  proof (cases "1 \<le> Col li")
    case True
    then have "Repeat [CHR 0x09] (Col li - 1) = Inr (replicate (nat (Col li - 1)) (CHR 0x09))"
      by (simp add: Repeat_def concat_replicate_single)
    then show ?thesis using True Cons.IH by (simp add: render_log_def)
  next
    case False
    then show ?thesis by (simp add: Repeat_def)
  qed
qed

lemma WriteLogs_loop_char:
  "WriteLogs_loop idx contents logs wr =
     (if columns_ok_from idx contents logs then Inr (wr @ merge_from idx contents logs)
      else Inl (Panic ''strings: negative Repeat count''))"
proof (induction contents arbitrary: idx wr)
  case Nil
  then show ?case by simp
next
  case (Cons line contents)
  have s: "(case logs (int idx + 1) of None \<Rightarrow> Inr wr | Some infos \<Rightarrow> WriteLogs_infos infos wr) =
           WriteLogs_infos (lookup logs (int idx + 1)) wr"
    by (simp add: lookup_def split: option.splits)
  show ?case
    unfolding WriteLogs_loop.simps s
    by (simp add: WriteLogs_infos_char Cons.IH)
qed

lemma merge_from_index:
  "merge_from idx contents logs =
     concat (map (\<lambda>i. map render_log (lookup logs (int (idx + i) + 1)) @ [contents ! i])
                 [0..<length contents])"
proof (induction contents arbitrary: idx)
  case Nil
  then show ?case by simp
next
  case (Cons line contents)
  have u: "[0..<length (line # contents)] = 0 # map Suc [0..<length contents]"
    using upt_0_Suc[of "length contents"] by simp
  show ?case
    unfolding u merge_from.simps Cons.IH
    by (simp add: comp_def)
qed

lemma columns_ok_from_index:
  "columns_ok_from idx contents logs =
     list_all (\<lambda>i. list_all (\<lambda>li. 1 \<le> Col li) (lookup logs (int (idx + i) + 1)))
       [0..<length contents]"
proof (induction contents arbitrary: idx)
  case Nil
  then show ?case by simp
next
  case (Cons line contents)
  have u: "[0..<length (line # contents)] = 0 # map Suc [0..<length contents]"
    using upt_0_Suc[of "length contents"] by simp
  show ?case
    unfolding u columns_ok_from.simps Cons.IH
    by (simp add: list.pred_map comp_def)
qed

lemma merge_from_0: "merge_from 0 contents logs = merged contents logs"
  by (simp add: merge_from_index merged_def)

lemma columns_ok_from_0: "columns_ok_from 0 contents logs = columns_ok contents logs"
  by (simp add: columns_ok_from_index columns_ok_def)

lemma WriteLogs_loop_merged:
  "WriteLogs_loop 0 contents logs [] =
     (if columns_ok contents logs then Inr (merged contents logs)
      else Inl (Panic ''strings: negative Repeat count''))"
  by (simp add: WriteLogs_loop_char merge_from_0 columns_ok_from_0)

lemma ex_GenerateLogs: "GenerateLogs ex_infos = Inr ex_logs"
  by (simp add: GenerateLogs_def ex_infos_def ex_logs_def append_log_def lookup_def
      GetExitLogInfo_def GetEntryLogInfo_text entry_text_def FormatInt_def FormatNat.simps)

lemma upt16: "[0..<16] = [0,1,2,3,4,5,6,7,8,9,10,11,12,13,14,15]"
  by (simp add: upt_rec)

lemma ex_columns_ok: "columns_ok ex_contents ex_logs"
  by (simp add: columns_ok_def ex_contents_def ex_logs_def lookup_def upt16)

lemma ex_merged: "merged ex_contents ex_logs = ex_output"
  by (simp add: merged_def ex_contents_def ex_logs_def ex_output_def lookup_def upt16 render_log_def
      numeral_2_eq_2)

lemma upt_split: "i < n \<Longrightarrow> [0..<n] = [0..<i] @ i # [Suc i..<n]"
  using upt_add_eq_append[of 0 i "n - i"] by (simp add: upt_conv_Cons)

lemma merged_split:
  assumes "i < length contents"
  shows "\<exists>before after.
           merged contents logs =
             before @ map render_log (lookup logs (int i + 1)) @ contents ! i # after \<and>
           length before = i + (\<Sum>j\<leftarrow>[0..<i]. length (lookup logs (int j + 1)))"
proof -
  let ?f = "\<lambda>i. map render_log (lookup logs (int i + 1)) @ [contents ! i]"
  have "merged contents logs =
          concat (map ?f [0..<i]) @ ?f i @ concat (map ?f [Suc i..<length contents])"
    unfolding merged_def upt_split[OF assms] by simp
  moreover have "length (concat (map ?f [0..<i])) =
                   i + (\<Sum>j\<leftarrow>[0..<i]. length (lookup logs (int j + 1)))"
    by (simp add: length_concat comp_def sum_list_Suc)
  ultimately have "merged contents logs =
      concat (map ?f [0..<i]) @ map render_log (lookup logs (int i + 1)) @
      contents ! i # concat (map ?f [Suc i..<length contents]) \<and>
    length (concat (map ?f [0..<i])) = i + (\<Sum>j\<leftarrow>[0..<i]. length (lookup logs (int j + 1)))"
    by simp
  then show ?thesis by blast
qed

lemma length_merged:
  "length (merged contents logs) =
     length contents + (\<Sum>i\<leftarrow>[0..<length contents]. length (lookup logs (int i + 1)))"
  by (simp add: merged_def length_concat comp_def sum_list_Suc)

text \<open>
  Claim C3. The merger completes exactly when the trace lines that belong to lines
  of the input have columns of at least 1 (the columns of the data model are
  1-based; a smaller one makes \<^verbatim>\<open>strings.Repeat\<close> panic). It then writes to the
  destination, for every line of the input in order, the trace lines of its 1-based
  line number in the order they have in the index (the order of generation), each
  as its column minus one tabs followed by the statement, and then the line itself,
  unchanged. Line \<open>i\<close> (0-based) of the
  input therefore stands in the output after its own trace lines, at the index \<open>i\<close>
  plus the number of trace lines of the lines up to it; a line with no trace lines is
  preceded by nothing, and the output has no other lines.
\<close>

theorem merger_inserts_before_lines:
  "WriteLogsToFile path contents logs fs =
     (if columns_ok contents logs then (None, fs(path \<mapsto> merged contents logs))
      else (Some (Panic ''strings: negative Repeat count''), fs(path \<mapsto> []))) \<and>
   (\<forall>i<length contents. \<exists>before after.
      merged contents logs =
        before @ map render_log (lookup logs (int i + 1)) @ contents ! i # after \<and>
      length before = i + (\<Sum>j\<leftarrow>[0..<i]. length (lookup logs (int j + 1)))) \<and>
   length (merged contents logs) =
     length contents + (\<Sum>i\<leftarrow>[0..<length contents]. length (lookup logs (int i + 1)))"
  using merged_split[of _ contents logs] length_merged[of contents logs]
  by (simp add: WriteLogsToFile_def WriteLogs_loop_merged)

theorem merger_inserts_before_lines_witness:
  "columns_ok ex_contents ex_logs \<and>
   WriteLogsToFile ''src/debug_ex.go'' ex_contents ex_logs ex_fs =
     (None, ex_fs(''src/debug_ex.go'' \<mapsto> ex_output)) \<and>
   length ex_output = 23"
  using merger_inserts_before_lines[of "''src/debug_ex.go''" ex_contents ex_logs ex_fs]
    ex_columns_ok ex_merged
  by (simp add: ex_output_def)

lemma is_trace_text_hd: "is_trace_text s \<Longrightarrow> \<exists>t. s = CHR ''f'' # t"
  by (cases s) (auto simp: is_trace_text_def HasPrefix_def)

lemma dropWhile_replicate: "dropWhile (\<lambda>c. c = a) (replicate n a @ ys) = dropWhile (\<lambda>c. c = a) ys"
  by (induction n) simp_all

lemma is_trace_line_render: "is_trace_text (Log li) \<Longrightarrow> is_trace_line (render_log li)"
proof -
  assume a: "is_trace_text (Log li)"
  then obtain t where t: "Log li = CHR ''f'' # t" using is_trace_text_hd by blast
  have "dropWhile (\<lambda>c. c = CHR 0x09) (replicate (nat (Col li - 1)) (CHR 0x09) @ Log li) = Log li"
    unfolding t dropWhile_replicate by simp
  then show ?thesis using a by (simp add: is_trace_line_def render_log_def)
qed

lemma point_log_trace_text: "is_trace_text (Log (point_log k pt))"
  by (cases pt)
    (simp_all add: GetEntryLogInfo_text entry_text_def exit_text_def is_trace_text_def
      HasPrefix_def Let_def)

lemma gen_from_trace_text: "x \<in> set (gen_from k pts) \<Longrightarrow> is_trace_text (Log (snd x))"
  by (induction pts arbitrary: k) (auto simp: point_log_trace_text)

lemma generated_index_trace_text:
  "li \<in> set (lookup (generated_index fnInfo) n) \<Longrightarrow> is_trace_text (Log li)"
  by (auto simp: generated_index_def lookup_add_all lookup_empty dest: gen_from_trace_text)

lemma filter_merge_from:
  assumes "\<And>n li. li \<in> set (lookup logs n) \<Longrightarrow> is_trace_line (render_log li)"
  shows "\<not> list_ex is_trace_line contents \<Longrightarrow>
         filter (\<lambda>l. \<not> is_trace_line l) (merge_from idx contents logs) = contents"
proof (induction contents arbitrary: idx)
  case Nil
  then show ?case by simp
next
  case (Cons line contents)
  have "filter (\<lambda>l. \<not> is_trace_line l) (map render_log (lookup logs (int idx + 1))) = []"
    using assms by (simp add: filter_empty_conv)
  then show ?case using Cons by simp
qed

lemma GenerateLogs_index: "GenerateLogs fnInfo = Inr (generated_index fnInfo)"
  by (simp add: GenerateLogs_gen generated_index_def)

lemma AddLogsToFile_finished:
  assumes "AddLogsToFile root fset filePath fs = (None, fs')"
  obtains infos contents where "GetAllFuncInfo root fset = Inr infos"
    and "ReadFileLines filePath fs = Inr contents"
    and "columns_ok contents (generated_index infos)"
    and "fs' = fs(GetNewPath filePath \<mapsto> merged contents (generated_index infos))"
proof -
  obtain infos where i: "GetAllFuncInfo root fset = Inr infos"
    using assms by (auto simp: AddLogsToFile_def split: sum.splits)
  obtain contents where c: "ReadFileLines filePath fs = Inr contents"
    using assms i by (auto simp: AddLogsToFile_def GenerateLogs_index split: sum.splits)
  have w: "WriteLogsToFile (GetNewPath filePath) contents (generated_index infos) fs = (None, fs')"
    using assms i c by (simp add: AddLogsToFile_def GenerateLogs_index)
  then have ok: "columns_ok contents (generated_index infos)"
    by (auto simp: WriteLogsToFile_def WriteLogs_loop_merged split: if_splits)
  then have "fs' = fs(GetNewPath filePath \<mapsto> merged contents (generated_index infos))"
    using w by (simp add: WriteLogsToFile_def WriteLogs_loop_merged)
  then show ?thesis using that i c ok by blast
qed

lemma ReadFileLines_contents: "ReadFileLines path fs = Inr contents \<Longrightarrow> fs path = Some contents"
  by (auto simp: ReadFileLines_def split: option.splits if_splits)

text \<open>
  Claim C4, amended. When the run finishes without error and no line of the input
  matches the patterns of the generated statements, removing the matching lines
  from the output gives the lines of the input again.
\<close>

theorem round_trip_without_matching_lines:
  "AddLogsToFile root fset filePath fs = (None, fs') \<Longrightarrow> fs filePath = Some contents \<Longrightarrow>
   \<not> list_ex is_trace_line contents \<Longrightarrow>
   \<exists>out. fs' (GetNewPath filePath) = Some out \<and>
     filter (\<lambda>l. \<not> is_trace_line l) out = contents"
proof -
  assume a: "AddLogsToFile root fset filePath fs = (None, fs')"
    and f: "fs filePath = Some contents" and n: "\<not> list_ex is_trace_line contents"
  from a obtain infos contents' where c: "ReadFileLines filePath fs = Inr contents'"
    and fs': "fs' = fs(GetNewPath filePath \<mapsto> merged contents' (generated_index infos))"
    by (rule AddLogsToFile_finished)
  have e: "contents' = contents" using ReadFileLines_contents[OF c] f by simp
  have "filter (\<lambda>l. \<not> is_trace_line l) (merge_from 0 contents (generated_index infos)) = contents"
    using n by (rule filter_merge_from[rotated])
      (auto intro: is_trace_line_render generated_index_trace_text)
  then show ?thesis unfolding fs' e by (simp add: merge_from_0)
qed

lemmas path_simps =
  GetNewPath_def Base_def Dir_def Clean_def strip_trailing_slashes_def last_element_def

lemma ex_GetNewPath: "GetNewPath ''src/ex.go'' = ''src/debug_ex.go''"
  by (simp add: path_simps)

lemma ex_GetNewPath_Log: "GetNewPath ''f.go'' = ''./debug_f.go''"
  by (simp add: path_simps)

lemma ex_ReadFileLines: "ReadFileLines ''src/ex.go'' ex_fs = Inr ex_contents"
  by (simp add: ReadFileLines_def ex_fs_def ex_contents_def)

lemma ex_AddLogsToFile:
  "AddLogsToFile ex_root ex_fset ''src/ex.go'' ex_fs =
     (None, ex_fs(''src/debug_ex.go'' \<mapsto> ex_output))"
  using ex_columns_ok
  by (simp add: AddLogsToFile_def ex_GetAllFuncInfo ex_GenerateLogs ex_GetNewPath
      ex_ReadFileLines WriteLogsToFile_def WriteLogs_loop_merged ex_merged)

lemma ex_no_trace_line: "\<not> list_ex is_trace_line ex_contents"
  by (simp add: ex_contents_def is_trace_line_def is_trace_text_def HasPrefix_def)

theorem round_trip_without_matching_lines_witness:
  "AddLogsToFile ex_root ex_fset ''src/ex.go'' ex_fs =
     (None, ex_fs(''src/debug_ex.go'' \<mapsto> ex_output)) \<and>
   ex_fs ''src/ex.go'' = Some ex_contents \<and>
   \<not> list_ex is_trace_line ex_contents \<and>
   filter (\<lambda>l. \<not> is_trace_line l) ex_output = ex_contents"
proof -
  have f: "ex_fs ''src/ex.go'' = Some ex_contents"
    by (simp add: ex_fs_def)
  obtain out where o: "(ex_fs(''src/debug_ex.go'' \<mapsto> ex_output)) (GetNewPath ''src/ex.go'') = Some out"
    and r: "filter (\<lambda>l. \<not> is_trace_line l) out = ex_contents"
    using round_trip_without_matching_lines[OF ex_AddLogsToFile f ex_no_trace_line] by blast
  have "out = ex_output" using o by (simp add: ex_GetNewPath)
  then show ?thesis using ex_AddLogsToFile f ex_no_trace_line r by simp
qed

lemma ex_Log_infos:
  "GetAllFuncInfo ex_root_Log ex_fset =
     Inr [\<lparr>Name = ''f'', Params = [], Returns = [],
           EntryLogPos = \<lparr>Line = 4, Column = 2\<rparr>, ExitLogPos = [\<lparr>Line = 5, Column = 2\<rparr>]\<rparr>]"
  by (simp add: GetAllFuncInfo_def ex_root_Log_def ex_Log_def ex_fset_def extract_simps)

lemma ex_Log_run:
  "AddLogsToFile ex_root_Log ex_fset ''f.go'' ex_fs_Log =
     (None, ex_fs_Log(''./debug_f.go'' \<mapsto> ex_output_Log))"
  by (simp add: AddLogsToFile_def ex_Log_infos ex_GetNewPath_Log GenerateLogs_def
      append_log_def lookup_def GetExitLogInfo_def GetEntryLogInfo_text entry_text_def
      FormatInt_def FormatNat.simps ReadFileLines_def ex_fs_Log_def ex_contents_Log_def
      WriteLogsToFile_def Repeat_def ex_output_Log_def)

text \<open>
  Claim C4, as stated, fails when the input already holds a line of the form of a
  generated statement: the run finishes, and removing the matching lines from the
  output removes line 4 of the input as well.
\<close>

theorem round_trip_counterexample:
  "AddLogsToFile ex_root_Log ex_fset ''f.go'' ex_fs_Log =
     (None, ex_fs_Log(''./debug_f.go'' \<mapsto> ex_output_Log)) \<and>
   ex_fs_Log ''f.go'' = Some ex_contents_Log \<and>
   filter (\<lambda>l. \<not> is_trace_line l) ex_output_Log = [''package main'', [], ''func f() {'', ''}''] \<and>
   filter (\<lambda>l. \<not> is_trace_line l) ex_output_Log \<noteq> ex_contents_Log"
proof -
  have "filter (\<lambda>l. \<not> is_trace_line l) ex_output_Log = [''package main'', [], ''func f() {'', ''}'']"
    by (simp add: ex_output_Log_def is_trace_line_def is_trace_text_def HasPrefix_def)
  moreover have "ex_fs_Log ''f.go'' = Some ex_contents_Log"
    by (simp add: ex_fs_Log_def)
  moreover have "[''package main'', [], ''func f() {'', ''}''] \<noteq> ex_contents_Log"
    by (simp add: ex_contents_Log_def)
  ultimately show ?thesis using ex_Log_run by simp
qed

lemma Position_valid: "IsValid p \<Longrightarrow> Position fset p = fset p"
  by (simp add: Position_def IsValid_def)

lemma first_stmt_in_body:
  "List b \<noteq> [] \<Longrightarrow> hd (List b) \<in> set (concat (map Inspect (List b)))"
proof -
  assume "List b \<noteq> []"
  then have "hd (List b) \<in> set (List b)" by simp
  moreover have "hd (List b) \<in> set (Inspect (hd (List b)))"
    by (cases "hd (List b)") simp_all
  ultimately show ?thesis by auto
qed

lemma body_nodes_in_decl:
  "Body fn = Some b \<Longrightarrow> set (concat (map Inspect (List b))) \<subseteq> set (Inspect_FuncDecl fn)"
  by (auto simp: Inspect_FuncDecl_def Inspect_Body_def)

lemma ExtractFuncInfo_columns:
  assumes e: "ExtractFuncInfo fn fset = Inr (info, True)" and ok: "positions_ok fset fn"
  shows "1 \<le> Column (EntryLogPos info) \<and> list_all (\<lambda>p. 1 \<le> Column p) (ExitLogPos info)"
proof -
  from e obtain b where b: "Body fn = Some b" and vl: "IsValid (Lbrace b)"
    and vr: "IsValid (Rbrace b)"
    and en: "EntryLogPos info =
          (if List b = [] then Position fset (Lbrace b) else Position fset (Pos (hd (List b))))"
    and ex: "ExitLogPos info = exit_positions b fset (FindReturnStmts fn fset)"
    by (rule ExtractFuncInfo_positions)
  have nodes: "\<And>n. n \<in> set (Inspect_FuncDecl fn) \<Longrightarrow> 1 \<le> Column (Position fset (Pos n))"
    using ok by (auto simp: positions_ok_def list_all_iff Position_valid)
  have braces: "1 \<le> Column (Position fset (Lbrace b))" "1 \<le> Column (Position fset (Rbrace b))"
    using ok b vl vr by (auto simp: positions_ok_def brace_positions_def Position_valid)
  have first: "List b \<noteq> [] \<Longrightarrow> 1 \<le> Column (Position fset (Pos (hd (List b))))"
    using first_stmt_in_body[of b] body_nodes_in_decl[OF b] nodes by blast
  have lst: "List b \<noteq> [] \<Longrightarrow> 1 \<le> Column (Position fset (Pos (last (List b))))"
    using last_stmt_in_body[of b] body_nodes_in_decl[OF b] nodes by blast
  have rets: "list_all (\<lambda>p. 1 \<le> Column p) (FindReturnStmts fn fset)"
    using nodes by (auto simp: FindReturnStmts_def list_all_iff)
  have "1 \<le> Column (EntryLogPos info)"
    unfolding en using braces(1) first by simp
  moreover have "list_all (\<lambda>p. 1 \<le> Column p) (ExitLogPos info)"
    unfolding ex using rets braces(2) lst
    by (auto simp: exit_positions_def Let_def)
  ultimately show ?thesis by simp
qed

lemma records_columns:
  assumes "list_all2 (\<lambda>fn info. ExtractFuncInfo fn fset = Inr (info, True)) fns infos"
    and "list_all (positions_ok fset) fns"
  shows "list_all (\<lambda>info. 1 \<le> Column (EntryLogPos info) \<and>
                           list_all (\<lambda>p. 1 \<le> Column p) (ExitLogPos info)) infos"
  using assms
  by (induction fns infos rule: list_all2_induct) (simp_all add: ExtractFuncInfo_columns)

lemma gen_from_exit_columns:
  "list_all (\<lambda>p. 1 \<le> Column p) ps \<Longrightarrow> x \<in> set (gen_from k (map (ExitPoint info) ps)) \<Longrightarrow>
   1 \<le> Col (snd x)"
  by (induction ps arbitrary: k) auto

lemma gen_from_columns:
  "list_all (\<lambda>info. 1 \<le> Column (EntryLogPos info) \<and>
                     list_all (\<lambda>p. 1 \<le> Column p) (ExitLogPos info)) fnInfo \<Longrightarrow>
   x \<in> set (gen_from k (trace_points fnInfo)) \<Longrightarrow> 1 \<le> Col (snd x)"
proof (induction fnInfo arbitrary: k)
  case Nil
  then show ?case by (simp add: trace_points_def)
next
  case (Cons info fnInfo)
  then show ?case
    by (auto simp: trace_points_Cons gen_from_append GetEntryLogInfo_text
        dest: gen_from_exit_columns)
qed

lemma generated_index_columns:
  "list_all (\<lambda>info. 1 \<le> Column (EntryLogPos info) \<and>
                     list_all (\<lambda>p. 1 \<le> Column p) (ExitLogPos info)) fnInfo \<Longrightarrow>
   list_all (\<lambda>li. 1 \<le> Col li) (lookup (generated_index fnInfo) n)"
proof -
  assume a: "list_all (\<lambda>info. 1 \<le> Column (EntryLogPos info) \<and>
                     list_all (\<lambda>p. 1 \<le> Column p) (ExitLogPos info)) fnInfo"
  have "\<And>x. x \<in> set (gen_from 0 (trace_points fnInfo)) \<Longrightarrow> 1 \<le> Col (snd x)"
    using a by (rule gen_from_columns)
  then show ?thesis
    by (auto simp: generated_index_def lookup_add_all lookup_empty list_all_iff)
qed

text \<open>
  Claim C10, amended. When every node of the processed declarations has a valid
  position that the file set resolves to a column of at least 1, and so resolves
  their braces (which \<^verbatim>\<open>IsFuncBodyValid\<close> has found valid), every generated trace
  line has a column of at least 1, and the merger, whatever the lines of the input,
  repeats the tab a non-negative number of times and returns the merged lines: it
  does not panic.
\<close>

theorem columns_at_least_one:
  "list_all (positions_ok fset) (valid_funcs (Decls root)) \<Longrightarrow>
   GetAllFuncInfo root fset = Inr infos \<Longrightarrow>
   \<exists>logs. GenerateLogs infos = Inr logs \<and>
     (\<forall>n. list_all (\<lambda>li. 1 \<le> Col li) (lookup logs n)) \<and>
     (\<forall>contents. WriteLogs_loop 0 contents logs [] = Inr (merged contents logs))"
proof -
  assume p: "list_all (positions_ok fset) (valid_funcs (Decls root))"
    and g: "GetAllFuncInfo root fset = Inr infos"
  have "list_all2 (\<lambda>fn info. ExtractFuncInfo fn fset = Inr (info, True))
          (valid_funcs (Decls root)) infos"
    using g GetAllFuncInfo_loop_records[of "Decls root" fset infos]
    by (simp add: GetAllFuncInfo_def)
  then have c: "list_all (\<lambda>info. 1 \<le> Column (EntryLogPos info) \<and>
                     list_all (\<lambda>p. 1 \<le> Column p) (ExitLogPos info)) infos"
    using p by (rule records_columns)
  have l: "\<And>n. list_all (\<lambda>li. 1 \<le> Col li) (lookup (generated_index infos) n)"
    using c by (rule generated_index_columns)
  then have "\<And>contents. columns_ok contents (generated_index infos)"
    by (simp add: columns_ok_def list_all_iff)
  then show ?thesis
    using l by (simp add: GenerateLogs_index WriteLogs_loop_merged)
qed

lemma ex_positions_ok: "list_all (positions_ok ex_fset) (valid_funcs (Decls ex_root))"
  unfolding ex_valid_funcs
  by (simp add: positions_ok_def brace_positions_def Inspect_FuncDecl_def Inspect_FieldList_def
      Inspect_Body_def IsValid_def NoPos_def ex_fset_def ex_Add_def ex_Check_def ex_Empty_def)

theorem columns_at_least_one_witness:
  "list_all (positions_ok ex_fset) (valid_funcs (Decls ex_root)) \<and>
   GetAllFuncInfo ex_root ex_fset = Inr ex_infos \<and>
   GenerateLogs ex_infos = Inr ex_logs \<and>
   list_all (\<lambda>li. 1 \<le> Col li) (lookup ex_logs 16) \<and>
   WriteLogs_loop 0 ex_contents ex_logs [] = Inr ex_output"
  using columns_at_least_one[OF ex_positions_ok ex_GetAllFuncInfo]
    ex_positions_ok ex_GetAllFuncInfo ex_GenerateLogs ex_merged
  by auto

text \<open>
  Claim C10, as stated, fails for a file with a line directive that gives no column:
  both braces of \<^verbatim>\<open>f\<close> have valid positions, the file set resolves them to column
  0, the entry statement gets column 0, and the merger asks for the tab to be
  repeated -1 times.
\<close>

lemma ex_Directive_braces:
  "FileSetOf ex_file_Directive 39 = \<lparr>Line = 1, Column = 0\<rparr>"
  "FileSetOf ex_file_Directive 41 = \<lparr>Line = 2, Column = 0\<rparr>"
  by (simp_all add: FileSetOf_def unpack_def searchInts_def searchLineInfos_def
      ex_file_Directive_def Let_def)

lemma ex_Directive_infos:
  "GetAllFuncInfo ex_root_Directive (FileSetOf ex_file_Directive) =
     Inr [\<lparr>Name = ''f'', Params = [], Returns = [],
           EntryLogPos = \<lparr>Line = 1, Column = 0\<rparr>, ExitLogPos = [\<lparr>Line = 2, Column = 0\<rparr>]\<rparr>]"
  by (simp add: GetAllFuncInfo_def ex_root_Directive_def ex_Directive_def extract_simps
      ex_Directive_braces)

text \<open>
  Claim C10, the counterexample: the record of \<^verbatim>\<open>f\<close>, the columns of the trace lines
  generated for line 1, and the end of the run.
\<close>

theorem line_directive_column_zero:
  "IsFuncBodyValid (Body ex_Directive) \<and>
   GetAllFuncInfo ex_root_Directive (FileSetOf ex_file_Directive) =
     Inr [\<lparr>Name = ''f'', Params = [], Returns = [],
           EntryLogPos = \<lparr>Line = 1, Column = 0\<rparr>, ExitLogPos = [\<lparr>Line = 2, Column = 0\<rparr>]\<rparr>] \<and>
   map Col (lookup (generated_index
       [\<lparr>Name = ''f'', Params = [], Returns = [],
         EntryLogPos = \<lparr>Line = 1, Column = 0\<rparr>, ExitLogPos = [\<lparr>Line = 2, Column = 0\<rparr>]\<rparr>]) 1) = [0] \<and>
   AddLogsToFile ex_root_Directive (FileSetOf ex_file_Directive) ''gen.go'' ex_fs_Directive =
     (Some (Panic ''strings: negative Repeat count''), ex_fs_Directive(''./debug_gen.go'' \<mapsto> []))"
proof -
  have "IsFuncBodyValid (Body ex_Directive)"
    by (simp add: ex_Directive_def IsFuncBodyValid_def IsValid_def NoPos_def)
  moreover have "GetNewPath ''gen.go'' = ''./debug_gen.go''"
    by (simp add: path_simps)
  moreover have "map Col (lookup (generated_index
       [\<lparr>Name = ''f'', Params = [], Returns = [],
         EntryLogPos = \<lparr>Line = 1, Column = 0\<rparr>, ExitLogPos = [\<lparr>Line = 2, Column = 0\<rparr>]\<rparr>]) 1) = [0]"
    by (simp add: generated_index_def trace_points_def add_all_def append_log_def lookup_def
        GetEntryLogInfo_text)
  ultimately show ?thesis
    by (simp add: ex_Directive_infos AddLogsToFile_def GenerateLogs_def append_log_def
        lookup_def GetExitLogInfo_def GetEntryLogInfo_text entry_text_def FormatInt_def
        FormatNat.simps ReadFileLines_def ex_fs_Directive_def WriteLogsToFile_def Repeat_def)
qed

section \<open>The destination path\<close>

lemma last_element_slash_free: "CHR ''/'' \<notin> set (last_element path)"
  by (auto simp: last_element_def dest: set_takeWhileD)

lemma last_element_append:
  "CHR ''/'' \<notin> set e \<Longrightarrow> last_element (d @ CHR ''/'' # e) = e"
proof -
  assume a: "CHR ''/'' \<notin> set e"
  have "takeWhile (\<lambda>c. c \<noteq> CHR ''/'') (rev e @ CHR ''/'' # rev d) = rev e"
    using a by (auto simp: takeWhile_tail)
  then show ?thesis by (simp add: last_element_def)
qed

lemma strip_no_trailing:
  "path \<noteq> [] \<Longrightarrow> last path \<noteq> CHR ''/'' \<Longrightarrow> strip_trailing_slashes path = path"
proof -
  assume "path \<noteq> []" and "last path \<noteq> CHR ''/''"
  then obtain c cs where r: "rev path = c # cs" and c: "c \<noteq> CHR ''/''"
    by (metis hd_rev list.sel(1) neq_Nil_conv rev_is_Nil_conv rev_rev_ident)
  have "rev (dropWhile (\<lambda>c. c = CHR ''/'') (rev path)) = rev (rev path)"
    unfolding r using c by simp
  then show ?thesis by (simp add: strip_trailing_slashes_def)
qed

lemma last_element_nonempty:
  "path \<noteq> [] \<Longrightarrow> last path \<noteq> CHR ''/'' \<Longrightarrow> last_element path \<noteq> []"
proof -
  assume "path \<noteq> []" and "last path \<noteq> CHR ''/''"
  then obtain c cs where r: "rev path = c # cs" and c: "c \<noteq> CHR ''/''"
    by (metis hd_rev list.sel(1) neq_Nil_conv rev_is_Nil_conv rev_rev_ident)
  show ?thesis unfolding last_element_def r using c by simp
qed

lemma Base_file:
  "path \<noteq> [] \<Longrightarrow> last path \<noteq> CHR ''/'' \<Longrightarrow> Base path = last_element path"
  by (simp add: Base_def strip_no_trailing last_element_nonempty)

lemma Base_nonempty: "Base path \<noteq> []"
  by (simp add: Base_def Let_def)

lemma Base_cases: "Base path = ''/'' \<or> CHR ''/'' \<notin> set (Base path)"
  by (simp add: Base_def Let_def last_element_slash_free)

lemma Base_append:
  assumes "e \<noteq> []" and "CHR ''/'' \<notin> set e"
  shows "Base (d @ CHR ''/'' # e) = e"
proof -
  have "last (d @ CHR ''/'' # e) = last e" using assms(1) by simp
  then have l: "last (d @ CHR ''/'' # e) \<noteq> CHR ''/''"
    using assms by (metis last_in_set)
  have "Base (d @ CHR ''/'' # e) = last_element (d @ CHR ''/'' # e)"
    using l by (intro Base_file) simp_all
  then show ?thesis using last_element_append[OF assms(2), of d] by simp
qed

lemma GetNewPath_eq: "GetNewPath path = Dir path @ CHR ''/'' # (''debug_'' @ Base path)"
  by (simp add: GetNewPath_def)

lemma Base_GetNewPath:
  "CHR ''/'' \<notin> set (Base path) \<Longrightarrow> Base (GetNewPath path) = ''debug_'' @ Base path"
  unfolding GetNewPath_eq by (rule Base_append) simp_all

lemma Base_GetNewPath_root:
  "Base path = ''/'' \<Longrightarrow> Base (GetNewPath path) = ''debug_''"
  by (simp add: GetNewPath_eq Base_def strip_trailing_slashes_def last_element_def)

lemma GetNewPath_differs: "GetNewPath path \<noteq> path"
proof
  assume e: "GetNewPath path = path"
  show False
  proof (cases "Base path = ''/''")
    case True
    then show ?thesis using Base_GetNewPath_root[OF True] e by simp
  next
    case False
    then have "CHR ''/'' \<notin> set (Base path)" using Base_cases[of path] by simp
    then have "Base (GetNewPath path) = ''debug_'' @ Base path" by (rule Base_GetNewPath)
    then have "length (Base path) = length (''debug_'' @ Base path)" using e by simp
    then show ?thesis by simp
  qed
qed

lemma Ext_GetNewPath:
  assumes "path \<noteq> []" and "last path \<noteq> CHR ''/''"
  shows "Ext (GetNewPath path) = Ext path"
proof -
  let ?e = "last_element path"
  have b: "Base path = ?e" using assms by (rule Base_file)
  have "CHR ''/'' \<notin> set (''debug_'' @ ?e)"
    using last_element_slash_free[of path] by simp
  then have l: "last_element (GetNewPath path) = ''debug_'' @ ?e"
    unfolding GetNewPath_eq b by (rule last_element_append)
  show ?thesis
  proof (cases "CHR ''.'' \<in> set ?e")
    case True
    then have "takeWhile (\<lambda>c. c \<noteq> CHR ''.'') (rev ?e @ rev ''debug_'') =
               takeWhile (\<lambda>c. c \<noteq> CHR ''.'') (rev ?e)"
      by (intro takeWhile_append1[of "CHR ''.''"]) simp_all
    then show ?thesis using True by (simp add: Ext_def l)
  next
    case False
    then show ?thesis by (simp add: Ext_def l)
  qed
qed

lemma Split_nonempty: "Split s \<noteq> []"
  by (induction s) (auto split: list.splits)

lemma Split_append: "Split (a @ CHR ''/'' # b) = Split a @ Split b"
proof (induction a)
  case Nil
  then show ?case by simp
next
  case (Cons c a)
  then show ?case using Split_nonempty[of a] by (auto split: list.splits)
qed

lemma Split_slash_free: "CHR ''/'' \<notin> set e \<Longrightarrow> Split e = [e]"
  by (induction e) auto

lemma Split_elems: "e \<in> set (Split s) \<Longrightarrow> CHR ''/'' \<notin> set e"
proof (induction s arbitrary: e)
  case Nil
  then show ?case by simp
next
  case (Cons c s)
  then show ?case using Split_nonempty[of s]
    by (auto split: if_splits list.splits)
qed

lemma Split_Join:
  "es \<noteq> [] \<Longrightarrow> list_all (\<lambda>e. CHR ''/'' \<notin> set e) es \<Longrightarrow> Split (Join es ''/'') = es"
proof (induction es "''/''" rule: Join.induct)
  case 1
  then show ?case by simp
next
  case (2 e)
  then show ?case by (simp add: Split_slash_free)
next
  case (3 e v va)
  then show ?case by (simp add: Split_append Split_slash_free)
qed

lemma Clean_elems_append:
  "Clean_elems rooted (xs @ ys) out = Clean_elems rooted ys (Clean_elems rooted xs out)"
  by (induction xs arbitrary: out) auto

lemma plain_append: "plain (xs @ ys) \<longleftrightarrow> plain xs \<and> plain ys"
  by (simp add: plain_def)

lemma plain_butlast: "plain es \<Longrightarrow> plain (butlast es)"
  by (auto simp: plain_def list_all_iff dest: in_set_butlastD)

lemma plain_normal: "plain es \<Longrightarrow> normal rooted es"
  by (cases es) (auto simp: plain_def)

lemma normal_rooted: "normal True es \<longleftrightarrow> plain es"
  by (cases es) (simp_all add: plain_def)

lemma normal_butlast: "normal rooted es \<Longrightarrow> normal rooted (butlast es)"
proof (induction es)
  case Nil
  then show ?case by simp
next
  case (Cons e es)
  show ?case
  proof (cases "es = []")
    case True
    then show ?thesis by simp
  next
    case False
    show ?thesis
    proof (cases "rooted \<or> e \<noteq> ''..''")
      case True
      then have "plain (e # es)" using Cons.prems by (auto split: if_splits)
      then have "plain (butlast (e # es))" by (rule plain_butlast)
      then show ?thesis by (rule plain_normal)
    next
      case False
      then have "normal rooted es" using Cons.prems by simp
      then have "normal rooted (butlast es)" by (rule Cons.IH)
      then show ?thesis using False \<open>es \<noteq> []\<close> by simp
    qed
  qed
qed

lemma normal_dotdots:
  "normal False es \<Longrightarrow> es = [] \<or> last es = ''..'' \<Longrightarrow> list_all (\<lambda>e. e = ''..'') es"
proof (induction es)
  case Nil
  then show ?case by simp
next
  case (Cons e es)
  show ?case
  proof (cases "e = ''..''")
    case True
    then have n: "normal False es" using Cons.prems(1) by simp
    have "es = [] \<or> last es = ''..''" using Cons.prems(2) by (auto split: if_splits)
    then show ?thesis using True Cons.IH[OF n] by simp
  next
    case False
    then have "plain (e # es)" using Cons.prems(1) by simp
    then have "\<forall>x\<in>set (e # es). x \<noteq> ''..''"
      by (simp add: plain_def list_all_iff)
    moreover have "last (e # es) \<in> set (e # es)" by (rule last_in_set) simp
    ultimately have "last (e # es) \<noteq> ''..''" by blast
    then show ?thesis using Cons.prems(2) by simp
  qed
qed

lemma normal_append_dotdot:
  "list_all (\<lambda>e. e = ''..'') es \<Longrightarrow> normal False (es @ ''..'' # ys) = normal False ys"
  by (induction es) simp_all

lemma elem_ok_dotdot: "elem_ok ''..''"
  by (simp add: elem_ok_def)

lemma normal_snoc:
  "normal rooted es \<Longrightarrow> elem_ok e \<Longrightarrow> e \<noteq> ''..'' \<Longrightarrow> normal rooted (es @ [e])"
proof (induction es)
  case Nil
  then show ?case by (simp add: plain_def)
next
  case (Cons x es)
  then show ?case by (auto simp: plain_def split: if_splits)
qed

lemma normal_elems: "normal rooted es \<Longrightarrow> list_all elem_ok es"
proof (induction es)
  case Nil
  then show ?case by simp
next
  case (Cons e es)
  then show ?case
    by (auto simp: plain_def elem_ok_dotdot list_all_iff split: if_splits)
qed

lemma Clean_elems_normal:
  "list_all (\<lambda>e. CHR ''/'' \<notin> set e) xs \<Longrightarrow> normal rooted out \<Longrightarrow>
   normal rooted (Clean_elems rooted xs out)"
proof (induction xs arbitrary: out)
  case Nil
  then show ?case by simp
next
  case (Cons e xs)
  have xs: "list_all (\<lambda>e. CHR ''/'' \<notin> set e) xs" and e: "CHR ''/'' \<notin> set e"
    using Cons.prems(1) by simp_all
  show ?case
  proof (cases "e = [] \<or> e = ''.''")
    case True
    then show ?thesis using Cons.IH[OF xs Cons.prems(2)] by auto
  next
    case skip: False
    show ?thesis
    proof (cases "e = ''..''")
      case False
      then have "normal rooted (out @ [e])"
        using Cons.prems(2) skip e by (intro normal_snoc) (simp_all add: elem_ok_def)
      then show ?thesis using Cons.IH[OF xs] skip False by simp
    next
      case True
      show ?thesis
      proof (cases "out \<noteq> [] \<and> last out \<noteq> ''..''")
        case canpop: True
        have "normal rooted (butlast out)" using Cons.prems(2) by (rule normal_butlast)
        then show ?thesis using Cons.IH[OF xs] True canpop by simp
      next
        case nopop: False
        show ?thesis
        proof (cases rooted)
          case True
          then show ?thesis using Cons.IH[OF xs Cons.prems(2)] \<open>e = ''..''\<close> nopop by auto
        next
          case False
          then have "list_all (\<lambda>e. e = ''..'') out"
            using Cons.prems(2) nopop by (intro normal_dotdots) auto
          then have "normal False (out @ [''..''])"
            by (simp add: normal_append_dotdot)
          then show ?thesis using Cons.IH[OF xs] \<open>e = ''..''\<close> nopop False by auto
        qed
      qed
    qed
  qed
qed

lemma normal_prefix_dotdots:
  "normal rooted (out @ ''..'' # es) \<Longrightarrow> \<not> rooted \<and> list_all (\<lambda>e. e = ''..'') out"
proof (induction out)
  case Nil
  then show ?case by (auto simp: plain_def split: if_splits)
next
  case (Cons x out)
  then show ?case by (auto simp: plain_def split: if_splits)
qed

lemma Clean_elems_fixed:
  "normal rooted (out @ es) \<Longrightarrow> Clean_elems rooted es out = out @ es"
proof (induction es arbitrary: out)
  case Nil
  then show ?case by simp
next
  case (Cons e es)
  have ok: "elem_ok e"
    using normal_elems[OF Cons.prems] by simp
  have n: "normal rooted ((out @ [e]) @ es)" using Cons.prems by simp
  show ?case
  proof (cases "e = ''..''")
    case False
    then show ?thesis using ok Cons.IH[OF n] by (simp add: elem_ok_def)
  next
    case True
    then have d: "\<not> rooted" "list_all (\<lambda>e. e = ''..'') out"
      using normal_prefix_dotdots[of rooted out es] Cons.prems by simp_all
    have "out = [] \<or> last out = ''..''"
      using d(2) by (cases "out = []") (auto simp: list_all_iff)
    then show ?thesis using True d(1) Cons.IH[OF n] by auto
  qed
qed

lemma Join_hd:
  "es \<noteq> [] \<Longrightarrow> hd es \<noteq> [] \<Longrightarrow> Join es sep \<noteq> [] \<and> hd (Join es sep) = hd (hd es)"
proof (cases es)
  case Nil
  assume "es \<noteq> []"
  then show ?thesis using Nil by simp
next
  case (Cons e es')
  assume "hd es \<noteq> []"
  then show ?thesis using Cons by (cases es') simp_all
qed

lemma normal_Nil: "normal rooted []"
  by simp

lemma Clean_dot_slash: "Clean ''./'' = ''.''"
  by (simp add: Clean_def)

lemma Clean_slash_slash: "Clean ''//'' = ''/''"
  by (simp add: Clean_def)

lemma Clean_unfold:
  "p \<noteq> [] \<Longrightarrow>
   Clean p =
     (let out = (if hd p = CHR ''/'' then ''/'' else []) @
                Join (Clean_elems (hd p = CHR ''/'') (Split p) []) ''/''
      in if out = [] then ''.'' else out)"
  by (simp add: Clean_def)

lemma Clean_Clean_slash: "Clean (Clean X @ ''/'') = Clean X"
proof (cases "X = []")
  case True
  then show ?thesis using Clean_dot_slash by (simp add: Clean_def)
next
  case False
  define rooted where "rooted = (hd X = CHR ''/'')"
  define es where "es = Clean_elems rooted (Split X) []"
  have sf: "list_all (\<lambda>e. CHR ''/'' \<notin> set e) (Split X)"
    by (simp add: list_all_iff Split_elems)
  have n: "normal rooted es"
    unfolding es_def using sf normal_Nil by (rule Clean_elems_normal)
  have cx: "Clean X = (let out = (if rooted then ''/'' else []) @ Join es ''/''
                       in if out = [] then ''.'' else out)"
    using False by (simp add: Clean_def rooted_def es_def)
  show ?thesis
  proof (cases "es = []")
    case True
    then show ?thesis
      unfolding cx using Clean_dot_slash Clean_slash_slash by (cases rooted) simp_all
  next
    case ne: False
    define J where "J = Join es ''/''"
    define q where "q = Clean X @ ''/''"
    have ok: "list_all elem_ok es" using n by (rule normal_elems)
    then have h: "hd es \<noteq> []" "CHR ''/'' \<notin> set (hd es)"
      using ne by (cases es; simp add: elem_ok_def)+
    have j: "J \<noteq> []" "hd J = hd (hd es)"
      unfolding J_def using Join_hd[OF ne h(1)] by simp_all
    have hj: "hd J \<noteq> CHR ''/''"
      using j(2) h by (metis hd_in_set)
    have sj: "Split J = es"
      unfolding J_def using ne ok by (intro Split_Join) (auto simp: list_all_iff elem_ok_def)
    have fx: "Clean_elems rooted es [] = es"
      using n Clean_elems_fixed[of rooted "[]" es] by simp
    have r: "Clean X = (if rooted then CHR ''/'' # J else J)"
      unfolding cx J_def[symmetric] using j(1) by simp
    have q1: "q \<noteq> []" by (simp add: q_def)
    have q2: "(hd q = CHR ''/'') = rooted"
      unfolding q_def r using j(1) hj by simp
    have "Split q = Split (Clean X) @ Split []"
      unfolding q_def using Split_append[of "Clean X" "[]"] by simp
    also have "Split (Clean X) = (if rooted then [] # es else es)"
      unfolding r using sj by simp
    finally have q3: "Split q = (if rooted then [] # es else es) @ [[]]" by simp
    have q4: "Clean_elems rooted (Split q) [] = es"
      unfolding q3 Clean_elems_append using fx by (cases rooted) simp_all
    have "Clean q = (if rooted then CHR ''/'' # J else J)"
      unfolding Clean_unfold[OF q1] q2 q4 J_def[symmetric] using j(1) by simp
    then have "Clean q = Clean X" using r by simp
    then show ?thesis by (simp only: q_def)
  qed
qed

lemma dropWhile_until:
  "\<forall>x\<in>set xs. P x \<Longrightarrow> \<not> P y \<Longrightarrow> dropWhile P (xs @ y # ys) = y # ys"
  by (induction xs) simp_all

lemma Dir_append:
  "CHR ''/'' \<notin> set e \<Longrightarrow> Dir (d @ CHR ''/'' # e) = Clean (d @ ''/'')"
proof -
  assume a: "CHR ''/'' \<notin> set e"
  have "dropWhile (\<lambda>c. c \<noteq> CHR ''/'') (rev e @ CHR ''/'' # rev d) = CHR ''/'' # rev d"
    using a by (intro dropWhile_until) auto
  then show ?thesis by (simp add: Dir_def)
qed

lemma Dir_GetNewPath:
  assumes "CHR ''/'' \<notin> set (Base path)"
  shows "Dir (GetNewPath path) = Dir path"
proof -
  have "CHR ''/'' \<notin> set (''debug_'' @ Base path)" using assms by simp
  then have "Dir (GetNewPath path) = Clean (Dir path @ ''/'')"
    unfolding GetNewPath_eq by (rule Dir_append)
  also have "\<dots> = Dir path"
    unfolding Dir_def by (rule Clean_Clean_slash)
  finally show ?thesis .
qed

lemma AddLogsToFile_other:
  "p \<noteq> GetNewPath path \<Longrightarrow> snd (AddLogsToFile root fset path fs) p = fs p"
  by (auto simp: AddLogsToFile_def WriteLogsToFile_def Let_def split: sum.splits)

text \<open>
  Claim C9. The destination is never the input path, so the run, however it ends,
  leaves the file at the input path as it was, and it touches no other path than
  the destination; a run that finishes has written the destination. For an input path that can name a file (not empty, not ending
  in a slash) the destination has the directory of the input, the base name of the
  input prefixed with \<open>debug_\<close>, and the extension of the input.
\<close>

theorem output_path_beside_input:
  "GetNewPath path \<noteq> path \<and>
   snd (AddLogsToFile root fset path fs) path = fs path \<and>
   (\<forall>p. p \<noteq> GetNewPath path \<longrightarrow> snd (AddLogsToFile root fset path fs) p = fs p) \<and>
   (fst (AddLogsToFile root fset path fs) = None \<longrightarrow>
      (\<exists>out. snd (AddLogsToFile root fset path fs) (GetNewPath path) = Some out)) \<and>
   (path \<noteq> [] \<and> last path \<noteq> CHR ''/'' \<longrightarrow>
      Dir (GetNewPath path) = Dir path \<and>
      Base (GetNewPath path) = ''debug_'' @ Base path \<and>
      Ext (GetNewPath path) = Ext path)"
proof -
  have d: "GetNewPath path \<noteq> path" by (rule GetNewPath_differs)
  then have "snd (AddLogsToFile root fset path fs) path = fs path"
    by (intro AddLogsToFile_other) simp
  moreover have "path \<noteq> [] \<and> last path \<noteq> CHR ''/'' \<longrightarrow>
      Dir (GetNewPath path) = Dir path \<and>
      Base (GetNewPath path) = ''debug_'' @ Base path \<and>
      Ext (GetNewPath path) = Ext path"
  proof
    assume a: "path \<noteq> [] \<and> last path \<noteq> CHR ''/''"
    then have "Base path = last_element path" by (simp add: Base_file)
    then have s: "CHR ''/'' \<notin> set (Base path)" by (simp add: last_element_slash_free)
    show "Dir (GetNewPath path) = Dir path \<and>
      Base (GetNewPath path) = ''debug_'' @ Base path \<and>
      Ext (GetNewPath path) = Ext path"
      using Dir_GetNewPath[OF s] Base_GetNewPath[OF s] Ext_GetNewPath a by simp
  qed
  moreover have "fst (AddLogsToFile root fset path fs) = None \<longrightarrow>
      (\<exists>out. snd (AddLogsToFile root fset path fs) (GetNewPath path) = Some out)"
  proof
    assume "fst (AddLogsToFile root fset path fs) = None"
    then have "AddLogsToFile root fset path fs = (None, snd (AddLogsToFile root fset path fs))"
      by (metis prod.collapse)
    then show "\<exists>out. snd (AddLogsToFile root fset path fs) (GetNewPath path) = Some out"
      by (rule AddLogsToFile_finished) simp
  qed
  ultimately show ?thesis using d AddLogsToFile_other by blast
qed

theorem output_path_beside_input_witness:
  "GetNewPath ''src/ex.go'' = ''src/debug_ex.go'' \<and>
   snd (AddLogsToFile ex_root ex_fset ''src/ex.go'' ex_fs) ''src/ex.go'' = Some ex_contents \<and>
   snd (AddLogsToFile ex_root ex_fset ''src/ex.go'' ex_fs) ''src/debug_ex.go'' = Some ex_output \<and>
   Dir ''src/ex.go'' = ''src'' \<and> Dir (GetNewPath ''src/ex.go'') = ''src'' \<and>
   Base ''src/ex.go'' = ''ex.go'' \<and> Base (GetNewPath ''src/ex.go'') = ''debug_ex.go'' \<and>
   Ext ''src/ex.go'' = ''.go'' \<and> Ext (GetNewPath ''src/ex.go'') = ''.go''"
proof -
  have p: "''src/ex.go'' \<noteq> [] \<and> last ''src/ex.go'' \<noteq> CHR ''/''" by simp
  have d: "Dir ''src/ex.go'' = ''src''" by (simp add: path_simps)
  have b: "Base ''src/ex.go'' = ''ex.go''" by (simp add: path_simps)
  have e: "Ext ''src/ex.go'' = ''.go''" by (simp add: Ext_def last_element_def)
  have f: "ex_fs ''src/ex.go'' = Some ex_contents" by (simp add: ex_fs_def)
  show ?thesis
    using output_path_beside_input[of "''src/ex.go''" ex_root ex_fset ex_fs] p d b e f
      ex_GetNewPath ex_AddLogsToFile
    by simp
qed

end
